theory Spec2Isabelle
  imports Complex_Main "HOL-Library.AList"
begin

section \<open>JavaScript values\<close>

text \<open>
  The authentication layer is TypeScript, and its interfaces (\<open>JWTPayload\<close>, \<open>User\<close>)
  declare string fields. The declarations are erased at run time: \<open>decodeJWT\<close> returns
  whatever \<open>JSON.parse\<close> produced, cast unchecked (\<open>as JWTPayload\<close>). The model
  therefore works on run-time values. Text is a HOL \<open>string\<close>, read as the UTF-8
  bytes of the JavaScript string.

  A number is kept as its exact rational value (every finite double is one); the sign of
  zero is not kept. The module only tests numbers for truthiness and passes them on.
\<close>

datatype number = Finite rat | PosInfinity | NegInfinity | NaN

datatype jsval =
    JUndefined
  | JNull
  | JBool bool
  | JNumber number
  | JString string
  | JArray "jsval list"
  | JObject "(string \<times> jsval) list"

text \<open>Exceptions a step of the module can raise.\<close>

datatype exn = TypeError | SyntaxError | RangeError

text \<open>\<open>ToBoolean\<close>: what \<open>!v\<close>, \<open>if (v)\<close> and \<open>v || w\<close> test.\<close>

fun truthy :: "jsval \<Rightarrow> bool" where
  "truthy JUndefined = False"
| "truthy JNull = False"
| "truthy (JBool b) = b"
| "truthy (JNumber n) = (case n of Finite r \<Rightarrow> r \<noteq> 0 | NaN \<Rightarrow> False | _ \<Rightarrow> True)"
| "truthy (JString s) = (s \<noteq> [])"
| "truthy (JArray xs) = True"
| "truthy (JObject ps) = True"

text \<open>\<open>a || b\<close>: the left operand when it is truthy, else the right one.\<close>

definition js_or :: "jsval \<Rightarrow> jsval \<Rightarrow> jsval" where
  "js_or a b = (if truthy a then a else b)"

text \<open>
  Reading property \<open>k\<close> of a plain object whose own properties are \<open>ps\<close>: the own
  property if there is one, else \<open>undefined\<close>. (The names read by this module, \<open>email\<close>,
  \<open>sub\<close>, \<open>name\<close>, \<open>picture\<close> and \<open>avatar_url\<close>, are not inherited from
  \<open>Object.prototype\<close>.)
\<close>

definition get :: "(string \<times> jsval) list \<Rightarrow> string \<Rightarrow> jsval" where
  "get ps k = (case map_of ps k of Some v \<Rightarrow> v | None \<Rightarrow> JUndefined)"

text \<open>
  \<open>s.split(d)\<close> for a one-character separator: the pieces between the separators, in
  order. The result is never the empty list: the empty string splits into one empty piece.
\<close>

fun split :: "char \<Rightarrow> string \<Rightarrow> string list" where
  "split d [] = [[]]"
| "split d (c # cs) =
     (let r = split d cs in if c = d then [] # r else (c # hd r) # tl r)"

section \<open>lib/user-types.ts\<close>

text \<open>
  \<open>interface User { id: string; email: string; name?: string; avatar_url?: string }\<close>.
  An absent optional field is \<open>JUndefined\<close>.
\<close>

record User =
  id' :: jsval
  email :: jsval
  name :: jsval
  avatar_url :: jsval

text \<open>\<open>interface UserSession { user: User; access_token?: string }\<close>\<close>

record UserSession =
  user :: User
  access_token :: "string option"

text \<open>\<open>interface UserTeam { id: string; email: string; name: string; tier: string }\<close>\<close>

record UserTeam =
  id' :: jsval
  email :: jsval
  name :: jsval
  tier :: string

section \<open>lib/jwt-decode.ts\<close>

text \<open>
  The library calls are parameters of the model: \<open>Buffer.from(s, 'base64url')\<close>,
  \<open>buf.toString('utf-8')\<close> and \<open>JSON.parse(s)\<close>, which \<open>decodeJWT\<close> makes, and
  \<open>JSON.stringify\<close>, with which \<open>NextResponse.json\<close> writes a response body. Each of
  the first three may raise; what they compute is left open, so the theorems below hold
  for every behaviour of the runtime. \<open>JSON.stringify\<close> recurses into arrays and objects
  and raises a \<open>RangeError\<close> when the call stack is exhausted:
  \<open>JSON_stringify_depth\<close> is the deepest nesting the stack of the runtime still holds.
  A reference instance, \<open>node\<close>, is defined further down and evaluates concrete tokens.
\<close>

record platform =
  Buffer_from_base64url :: "string \<Rightarrow> exn + string"
  toString_utf8 :: "string \<Rightarrow> exn + string"
  JSON_parse :: "string \<Rightarrow> exn + jsval"
  JSON_stringify_depth :: nat

text \<open>
  Lines 29 to 31 of \<open>decodeJWT\<close>: the payload segment through
  \<open>Buffer.from(payload, 'base64url').toString('utf-8')\<close> and \<open>JSON.parse\<close>.
\<close>

definition decode_payload :: "platform \<Rightarrow> string \<Rightarrow> exn + jsval" where
  "decode_payload P payload =
     (case Buffer_from_base64url P payload of
        Inl e \<Rightarrow> Inl e
      | Inr buf \<Rightarrow>
          (case toString_utf8 P buf of
             Inl e \<Rightarrow> Inl e
           | Inr decoded \<Rightarrow> JSON_parse P decoded))"

text \<open>The body of the \<open>try\<close> block of \<open>decodeJWT\<close>.\<close>

definition decodeJWT_try :: "platform \<Rightarrow> string \<Rightarrow> exn + jsval" where
  "decodeJWT_try P token =
     (let parts = split CHR ''.'' token in
      if length parts \<noteq> 3 then Inr JNull
      else
        let payload = parts ! 1 in
        decode_payload P payload)"

text \<open>
  \<open>decodeJWT\<close>: the \<open>try\<close> block, and the \<open>catch\<close> that logs and returns \<open>null\<close>.
  The result is the value handed to the caller: \<open>JNull\<close> is the source's \<open>null\<close>.
\<close>

definition decodeJWT :: "platform \<Rightarrow> string \<Rightarrow> exn + jsval" where
  "decodeJWT P token =
     (case decodeJWT_try P token of
        Inl error \<Rightarrow> Inr JNull
      | Inr v \<Rightarrow> Inr v)"

text \<open>
  \<open>extractUserFromJWT\<close>. Reading \<open>payload.email\<close> raises a \<open>TypeError\<close> on \<open>null\<close>
  and \<open>undefined\<close>. A boolean, a number, a string or an array has no property
  \<open>email\<close>, so the first test sends it to \<open>return null\<close>. On an object the four
  fields are read as the object literal lists them.
\<close>

fun extractUserFromJWT :: "jsval \<Rightarrow> exn + User option" where
  "extractUserFromJWT JUndefined = Inl TypeError"
| "extractUserFromJWT JNull = Inl TypeError"
| "extractUserFromJWT (JObject ps) =
     (if \<not> truthy (get ps ''email'') then Inr None
      else Inr (Some \<lparr>
        User.id' = js_or (get ps ''sub'') (get ps ''email''),
        email = get ps ''email'',
        name = get ps ''name'',
        avatar_url = js_or (get ps ''picture'') (get ps ''avatar_url'')\<rparr>))"
| "extractUserFromJWT v = Inr None"

section \<open>lib/server-auth.ts\<close>

definition MOCK_USER :: User where
  "MOCK_USER = \<lparr>
     User.id' = JString ''dev-user-001'',
     email = JString ''developer@localhost.dev'',
     name = JString ''Local Developer'',
     avatar_url = JUndefined\<rparr>"

definition AUTH_HEADER :: string where
  "AUTH_HEADER = ''x-goog-iap-jwt-assertion''"

text \<open>\<open>process.env\<close> is a map from variable names to strings.\<close>

definition isMockAuthEnabled :: "(string \<rightharpoonup> string) \<Rightarrow> bool" where
  "isMockAuthEnabled env =
     (if env ''MOCK_AUTH'' = Some ''true'' then True
      else if env ''NODE_ENV'' = Some ''development'' then True
      else False)"

text \<open>
  The \<open>if (forwardedUser)\<close> block of \<open>getUserFromHeaders\<close>: \<open>Inr (Some s)\<close> is its
  \<open>return\<close>, \<open>Inr None\<close> is falling out of the block, \<open>Inl e\<close> an exception.
\<close>

definition fromHeader :: "platform \<Rightarrow> string \<Rightarrow> exn + UserSession option" where
  "fromHeader P forwardedUser =
     (case decodeJWT P forwardedUser of
        Inl e \<Rightarrow> Inl e
      | Inr payload \<Rightarrow>
          if \<not> truthy payload then Inr None
          else
            (case extractUserFromJWT payload of
               Inl e \<Rightarrow> Inl e
             | Inr (Some u) \<Rightarrow>
                 Inr (Some \<lparr>UserSession.user = u, access_token = Some forwardedUser\<rparr>)
             | Inr None \<Rightarrow> Inr None))"

text \<open>
  \<open>getUserFromHeaders\<close>. \<open>headersList\<close> is the request's header list, read with
  \<open>get\<close> (header names in lower case): \<open>None\<close> is the \<open>null\<close> of a missing header.
  The empty string is falsy, so an empty header skips the block as a missing one does.
  Console output is not modelled.
\<close>

definition getUserFromHeaders ::
    "platform \<Rightarrow> (string \<rightharpoonup> string) \<Rightarrow> (string \<rightharpoonup> string) \<Rightarrow> exn + UserSession option" where
  "getUserFromHeaders P env headersList =
     (let forwardedUser = headersList AUTH_HEADER in
      case (case forwardedUser of
              None \<Rightarrow> Inr None
            | Some t \<Rightarrow> if t \<noteq> [] then fromHeader P t else Inr None) of
        Inl e \<Rightarrow> Inl e
      | Inr (Some s) \<Rightarrow> Inr (Some s)
      | Inr None \<Rightarrow>
          if isMockAuthEnabled env
          then Inr (Some \<lparr>UserSession.user = MOCK_USER, access_token = None\<rparr>)
          else Inr None)"

section \<open>The session endpoint (GET /api/auth/user)\<close>

text \<open>
  \<open>NextResponse.json(body, init)\<close> writes \<open>body\<close> with \<open>JSON.stringify\<close>. The response
  body of the model is the JSON value that this text denotes, that is, what a client reads
  back from it; the order of the keys in the text is not modelled.

  \<open>JSON.stringify\<close> recurses once for every array and object on the way to a value:
  \<open>depth\<close> counts that nesting.
\<close>

fun depth :: "jsval \<Rightarrow> nat"
  and depth_list :: "jsval list \<Rightarrow> nat"
  and depth_props :: "(string \<times> jsval) list \<Rightarrow> nat" where
  "depth (JArray xs) = Suc (depth_list xs)"
| "depth (JObject ps) = Suc (depth_props ps)"
| "depth v = 0"
| "depth_list [] = 0"
| "depth_list (x # xs) = max (depth x) (depth_list xs)"
| "depth_props [] = 0"
| "depth_props ((k, v) # ps) = max (depth v) (depth_props ps)"

text \<open>
  What \<open>JSON.stringify\<close> writes for a value: a number that is not finite becomes
  \<open>null\<close>, a property whose value is \<open>undefined\<close> is left out, an \<open>undefined\<close> element
  of an array becomes \<open>null\<close>.
\<close>

fun written :: "jsval \<Rightarrow> jsval"
  and written_list :: "jsval list \<Rightarrow> jsval list"
  and written_props :: "(string \<times> jsval) list \<Rightarrow> (string \<times> jsval) list" where
  "written (JNumber (Finite r)) = JNumber (Finite r)"
| "written (JNumber n) = JNull"
| "written (JArray xs) = JArray (written_list xs)"
| "written (JObject ps) = JObject (written_props ps)"
| "written v = v"
| "written_list [] = []"
| "written_list (x # xs) = (if x = JUndefined then JNull else written x) # written_list xs"
| "written_props [] = []"
| "written_props ((k, v) # ps) =
     (if v = JUndefined then written_props ps else (k, written v) # written_props ps)"

record NextResponse =
  status :: nat
  body :: jsval

text \<open>
  \<open>NextResponse.json(body, init)\<close>: the serialisation raises when \<open>body\<close> nests deeper
  than the stack holds; otherwise the response carries the status of \<open>init\<close>, 200 when
  there is none, and the body as written.
\<close>

definition NextResponse_json :: "platform \<Rightarrow> jsval \<Rightarrow> nat option \<Rightarrow> exn + NextResponse" where
  "NextResponse_json P b init =
     (if JSON_stringify_depth P < depth b then Inl RangeError
      else Inr \<lparr>status = (case init of Some s \<Rightarrow> s | None \<Rightarrow> 200), body = written b\<rparr>)"

text \<open>
  A \<open>User\<close> as the object it is at run time; its properties are in the order of the
  literals that build it (\<open>extractUserFromJWT\<close>, \<open>MOCK_USER\<close>).
\<close>

definition User_object :: "User \<Rightarrow> jsval" where
  "User_object u =
     JObject [(''id'', User.id' u), (''email'', User.email u), (''name'', User.name u),
              (''avatar_url'', User.avatar_url u)]"

text \<open>The literal \<open>{ user: session.user, access_token: session.access_token }\<close>.\<close>

definition session_body :: "UserSession \<Rightarrow> jsval" where
  "session_body session =
     JObject [(''user'', User_object (UserSession.user session)),
              (''access_token'',
                 (case UserSession.access_token session of
                    Some t \<Rightarrow> JString t
                  | None \<Rightarrow> JUndefined))]"

text \<open>
  \<open>GET\<close> has no \<open>try\<close>: an exception of the resolver or of \<open>NextResponse.json\<close> leaves
  the handler.
\<close>

definition GET ::
    "platform \<Rightarrow> (string \<rightharpoonup> string) \<Rightarrow> (string \<rightharpoonup> string) \<Rightarrow> exn + NextResponse" where
  "GET P env headersList =
     (case getUserFromHeaders P env headersList of
        Inl e \<Rightarrow> Inl e
      | Inr None \<Rightarrow> NextResponse_json P (JObject [(''user'', JNull)]) (Some 200)
      | Inr (Some session) \<Rightarrow> NextResponse_json P (session_body session) None)"


section \<open>The compatibility adapter (useAuth)\<close>

text \<open>What \<open>useUser()\<close> hands to \<open>useAuth\<close>: the value of the user context.\<close>

record UserContextValue =
  session :: "UserSession option"
  isLoading :: bool

text \<open>The legacy session shape and the value \<open>useAuth\<close> returns.\<close>

record user_metadata =
  avatar_url :: jsval

record CompatUser =
  id' :: jsval
  email :: jsval
  user_metadata :: user_metadata

record CompatSession =
  user :: CompatUser
  access_token :: "string option"

record Auth =
  session :: "CompatSession option"
  userTeam :: "UserTeam option"
  isLoading :: bool

text \<open>
  \<open>useAuth\<close>. Its two parameters are unused in the source and left out; \<open>None\<close> is
  the \<open>null\<close> of \<open>compatSession\<close> and the \<open>undefined\<close> of \<open>userTeam\<close>.
\<close>

definition useAuth :: "UserContextValue \<Rightarrow> Auth" where
  "useAuth ctx =
     (let session = UserContextValue.session ctx;
          compatSession =
            (case session of
               Some s \<Rightarrow>
                 Some \<lparr>CompatSession.user =
                         \<lparr>CompatUser.id' = User.id' (UserSession.user s),
                          email = User.email (UserSession.user s),
                          user_metadata =
                            \<lparr>user_metadata.avatar_url = User.avatar_url (UserSession.user s)\<rparr>\<rparr>,
                       access_token = UserSession.access_token s\<rparr>
             | None \<Rightarrow> None);
          userTeam =
            (case session of
               Some s \<Rightarrow>
                 Some \<lparr>UserTeam.id' = User.id' (UserSession.user s),
                       email = User.email (UserSession.user s),
                       name = js_or (User.name (UserSession.user s)) (User.email (UserSession.user s)),
                       tier = ''default''\<rparr>
             | None \<Rightarrow> None)
      in \<lparr>Auth.session = compatSession, userTeam = userTeam,
          isLoading = UserContextValue.isLoading ctx\<rparr>)"

section \<open>A reference instance of the platform\<close>

text \<open>
  \<open>node\<close> follows Node.js in the three library calls, so that the model runs on
  concrete tokens. The general theorems do not depend on it: they hold for every
  \<open>platform\<close>. Its stack is taken to hold 1000 levels of \<open>JSON.stringify\<close>; the
  bound of a real process depends on the size of its stack.

  \<open>Buffer.from(s, 'base64url')\<close> never raises: it accepts both base64 alphabets, skips
  every other character and stops at the first \<open>=\<close>. Four sextets give three bytes,
  three left over give two, two give one, a single one is dropped.
\<close>

definition unbase64 :: "char \<Rightarrow> nat option" where
  "unbase64 c =
     (let n = (of_char c :: nat) in
      if 65 \<le> n \<and> n \<le> 90 then Some (n - 65)
      else if 97 \<le> n \<and> n \<le> 122 then Some (n - 71)
      else if 48 \<le> n \<and> n \<le> 57 then Some (n + 4)
      else if c = CHR ''+'' \<or> c = CHR ''-'' then Some 62
      else if c = CHR ''/'' \<or> c = CHR ''_'' then Some 63
      else None)"

fun sextet_bytes :: "nat list \<Rightarrow> nat list" where
  "sextet_bytes (a # b # c # d # r) =
     (a * 4 + b div 16) # ((b mod 16) * 16 + c div 4) # ((c mod 4) * 64 + d) # sextet_bytes r"
| "sextet_bytes [a, b, c] = [a * 4 + b div 16, (b mod 16) * 16 + c div 4]"
| "sextet_bytes [a, b] = [a * 4 + b div 16]"
| "sextet_bytes r = []"

definition base64_decode :: "string \<Rightarrow> string" where
  "base64_decode s =
     map char_of (sextet_bytes (List.map_filter unbase64 (takeWhile (\<lambda>c. c \<noteq> CHR ''='') s)))"

text \<open>
  \<open>buf.toString('utf-8')\<close> never raises: each maximal ill-formed byte sequence becomes
  U+FFFD. With text kept as UTF-8 bytes, well-formed input is returned unchanged.
\<close>

definition FFFD :: string where
  "FFFD = [CHR 0xEF, CHR 0xBF, CHR 0xBD]"

type_synonym utf8_state = "string \<times> nat \<times> nat \<times> nat"

definition utf8_lead :: "char \<Rightarrow> string \<times> utf8_state" where
  "utf8_lead b =
     (let n = (of_char b :: nat) in
      if n < 0x80 then ([b], ([], 0, 0x80, 0xBF))
      else if 0xC2 \<le> n \<and> n \<le> 0xDF then ([], ([b], 1, 0x80, 0xBF))
      else if 0xE0 \<le> n \<and> n \<le> 0xEF then
        ([], ([b], 2, if n = 0xE0 then 0xA0 else 0x80, if n = 0xED then 0x9F else 0xBF))
      else if 0xF0 \<le> n \<and> n \<le> 0xF4 then
        ([], ([b], 3, if n = 0xF0 then 0x90 else 0x80, if n = 0xF4 then 0x8F else 0xBF))
      else (FFFD, ([], 0, 0x80, 0xBF)))"

fun utf8_run :: "utf8_state \<Rightarrow> string \<Rightarrow> string" where
  "utf8_run (p, k, lo, hi) [] = (if k = 0 then [] else FFFD)"
| "utf8_run (p, k, lo, hi) (b # bs) =
     (if k = 0 then fst (utf8_lead b) @ utf8_run (snd (utf8_lead b)) bs
      else if lo \<le> (of_char b :: nat) \<and> (of_char b :: nat) \<le> hi then
        (if k = 1 then p @ [b] @ utf8_run ([], 0, 0x80, 0xBF) bs
         else utf8_run (p @ [b], k - 1, 0x80, 0xBF) bs)
      else FFFD @ fst (utf8_lead b) @ utf8_run (snd (utf8_lead b)) bs)"

definition utf8_decode :: "string \<Rightarrow> string" where
  "utf8_decode bs = utf8_run ([], 0, 0x80, 0xBF) bs"

text \<open>
  \<open>JSON.parse\<close>: the JSON grammar, a \<open>SyntaxError\<close> on anything else. A repeated key
  keeps its first position and its last value. \<open>\uXXXX\<close> escapes are UTF-16 code units:
  a surrogate pair becomes one code point, and a lone surrogate is written in the three-byte
  form. A number literal keeps its exact decimal value, except that a literal a double
  rounds to zero or to an infinity is read as that. The recursion runs on fuel; twice the
  length of the text is enough (\<open>json_parse_fuel\<close> below), so the \<open>RangeError\<close> of an
  empty tank never comes out of \<open>json_parse\<close>.
\<close>

definition is_ws :: "char \<Rightarrow> bool" where
  "is_ws c = (c = CHR 0x20 \<or> c = CHR 0x09 \<or> c = CHR 0x0A \<or> c = CHR 0x0D)"

definition skip_ws :: "string \<Rightarrow> string" where
  "skip_ws s = dropWhile is_ws s"

definition is_digit :: "char \<Rightarrow> bool" where
  "is_digit c = (48 \<le> (of_char c :: nat) \<and> (of_char c :: nat) \<le> 57)"

definition digits_val :: "string \<Rightarrow> 'a::semiring_1" where
  "digits_val ds = foldl (\<lambda>a c. a * 10 + of_nat (of_char c - 48)) 0 ds"

definition hex_val :: "char \<Rightarrow> nat option" where
  "hex_val c =
     (let n = (of_char c :: nat) in
      if 48 \<le> n \<and> n \<le> 57 then Some (n - 48)
      else if 65 \<le> n \<and> n \<le> 70 then Some (n - 55)
      else if 97 \<le> n \<and> n \<le> 102 then Some (n - 87)
      else None)"

definition hex4 :: "string \<Rightarrow> nat option" where
  "hex4 s =
     (case map hex_val s of
        [Some a, Some b, Some c, Some d] \<Rightarrow> Some (((a * 16 + b) * 16 + c) * 16 + d)
      | _ \<Rightarrow> None)"

definition escape :: "char \<Rightarrow> char option" where
  "escape e =
     (if e = CHR 0x22 \<or> e = CHR 0x5C \<or> e = CHR ''/'' then Some e
      else if e = CHR ''b'' then Some (CHR 0x08)
      else if e = CHR ''f'' then Some (CHR 0x0C)
      else if e = CHR ''n'' then Some (CHR 0x0A)
      else if e = CHR ''r'' then Some (CHR 0x0D)
      else if e = CHR ''t'' then Some (CHR 0x09)
      else None)"

datatype unit16 = Byte char | Unit nat

fun scan_string :: "unit16 list \<Rightarrow> string \<Rightarrow> exn + unit16 list \<times> string" where
  "scan_string acc [] = Inl SyntaxError"
| "scan_string acc (c # r) =
     (if c = CHR 0x22 then Inr (rev acc, r)
      else if c = CHR 0x5C then
        (case r of
           [] \<Rightarrow> Inl SyntaxError
         | e # r' \<Rightarrow>
             if e = CHR ''u'' then
               (case hex4 (take 4 r') of
                  Some n \<Rightarrow> scan_string (Unit n # acc) (drop 4 r')
                | None \<Rightarrow> Inl SyntaxError)
             else
               (case escape e of
                  Some x \<Rightarrow> scan_string (Byte x # acc) r'
                | None \<Rightarrow> Inl SyntaxError))
      else if (of_char c :: nat) < 0x20 then Inl SyntaxError
      else scan_string (Byte c # acc) r)"

definition utf8_encode :: "nat \<Rightarrow> string" where
  "utf8_encode n =
     (if n < 0x80 then [char_of n]
      else if n < 0x800 then [char_of (0xC0 + n div 64), char_of (0x80 + n mod 64)]
      else if n < 0x10000 then
        [char_of (0xE0 + n div 4096), char_of (0x80 + n div 64 mod 64), char_of (0x80 + n mod 64)]
      else
        [char_of (0xF0 + n div 262144), char_of (0x80 + n div 4096 mod 64),
         char_of (0x80 + n div 64 mod 64), char_of (0x80 + n mod 64)])"

fun utf8_of_units :: "unit16 list \<Rightarrow> string" where
  "utf8_of_units [] = []"
| "utf8_of_units (Byte c # r) = c # utf8_of_units r"
| "utf8_of_units (Unit h # Unit l # r) =
     (if 0xD800 \<le> h \<and> h < 0xDC00 \<and> 0xDC00 \<le> l \<and> l < 0xE000
      then utf8_encode (0x10000 + (h - 0xD800) * 0x400 + (l - 0xDC00)) @ utf8_of_units r
      else utf8_encode h @ utf8_of_units (Unit l # r))"
| "utf8_of_units (Unit h # r) = utf8_encode h @ utf8_of_units r"

definition parse_string :: "string \<Rightarrow> exn + string \<times> string" where
  "parse_string s =
     (case scan_string [] s of
        Inl e \<Rightarrow> Inl e
      | Inr (us, r) \<Rightarrow> Inr (utf8_of_units us, r))"

definition decimal :: "int \<Rightarrow> int \<Rightarrow> rat" where
  "decimal m e = (if 0 \<le> e then of_int (m * 10 ^ nat e) else of_int m / of_int (10 ^ nat (- e)))"

definition to_double :: "bool \<Rightarrow> string \<Rightarrow> int \<Rightarrow> number" where
  "to_double neg ds e =
     (let sig = dropWhile (\<lambda>c. c = CHR ''0'') ds;
          k = int (length sig) + e
      in if sig = [] \<or> k \<le> - 324 then Finite 0
         else if 310 \<le> k then (if neg then NegInfinity else PosInfinity)
         else if k < - 322 \<and> decimal (digits_val sig) e \<le> 1 / 2 ^ 1075 then Finite 0
         else if 308 < k \<and> 2 ^ 1024 - 2 ^ 970 \<le> decimal (digits_val sig) e then
           (if neg then NegInfinity else PosInfinity)
         else Finite (if neg then - decimal (digits_val sig) e else decimal (digits_val sig) e))"

definition int_part :: "string \<Rightarrow> string \<times> string" where
  "int_part s =
     (let ds = takeWhile is_digit s;
          ip = (if ds \<noteq> [] \<and> hd ds = CHR ''0'' then ''0'' else ds)
      in (ip, drop (length ip) s))"

definition frac_part :: "string \<Rightarrow> (string \<times> string) option" where
  "frac_part s =
     (if s \<noteq> [] \<and> hd s = CHR ''.'' then
        (let fd = takeWhile is_digit (tl s)
         in if fd = [] then None else Some (fd, drop (length fd) (tl s)))
      else Some ([], s))"

definition exp_part :: "string \<Rightarrow> (int \<times> string) option" where
  "exp_part s =
     (if s \<noteq> [] \<and> (hd s = CHR ''e'' \<or> hd s = CHR ''E'') then
        (let t = tl s;
             sg = (t \<noteq> [] \<and> (hd t = CHR ''+'' \<or> hd t = CHR ''-''));
             u = (if sg then tl t else t);
             ed = takeWhile is_digit u
         in if ed = [] then None
            else Some (if sg \<and> hd t = CHR ''-'' then - digits_val ed else digits_val ed,
                       drop (length ed) u))
      else Some (0, s))"

definition parse_number :: "string \<Rightarrow> exn + jsval \<times> string" where
  "parse_number s =
     (let neg = (s \<noteq> [] \<and> hd s = CHR ''-'');
          (ip, s2) = int_part (if neg then tl s else s)
      in if ip = [] then Inl SyntaxError
         else
           (case frac_part s2 of
              None \<Rightarrow> Inl SyntaxError
            | Some (fd, s3) \<Rightarrow>
                (case exp_part s3 of
                   None \<Rightarrow> Inl SyntaxError
                 | Some (e, s6) \<Rightarrow>
                     Inr (JNumber (to_double neg (ip @ fd) (e - int (length fd))), s6))))"

fun parse_value :: "nat \<Rightarrow> string \<Rightarrow> exn + jsval \<times> string"
and parse_elements :: "nat \<Rightarrow> jsval list \<Rightarrow> string \<Rightarrow> exn + jsval \<times> string"
and parse_members :: "nat \<Rightarrow> (string \<times> jsval) list \<Rightarrow> string \<Rightarrow> exn + jsval \<times> string"
where
  "parse_value 0 s = Inl RangeError"
| "parse_value (Suc n) s =
     (let t = skip_ws s in
      if t = [] then Inl SyntaxError
      else if hd t = CHR ''{'' then
        (let r = skip_ws (tl t) in
         if r \<noteq> [] \<and> hd r = CHR ''}'' then Inr (JObject [], tl r)
         else parse_members n [] r)
      else if hd t = CHR ''['' then
        (let r = skip_ws (tl t) in
         if r \<noteq> [] \<and> hd r = CHR '']'' then Inr (JArray [], tl r)
         else parse_elements n [] r)
      else if hd t = CHR 0x22 then
        (case parse_string (tl t) of
           Inl e \<Rightarrow> Inl e
         | Inr (str, r) \<Rightarrow> Inr (JString str, r))
      else if hd t = CHR ''-'' \<or> is_digit (hd t) then parse_number t
      else if take 4 t = ''true'' then Inr (JBool True, drop 4 t)
      else if take 5 t = ''false'' then Inr (JBool False, drop 5 t)
      else if take 4 t = ''null'' then Inr (JNull, drop 4 t)
      else Inl SyntaxError)"
| "parse_elements 0 acc s = Inl RangeError"
| "parse_elements (Suc n) acc s =
     (case parse_value n s of
        Inl e \<Rightarrow> Inl e
      | Inr (v, r) \<Rightarrow>
          (let t = skip_ws r in
           if t = [] then Inl SyntaxError
           else if hd t = CHR '','' then parse_elements n (acc @ [v]) (tl t)
           else if hd t = CHR '']'' then Inr (JArray (acc @ [v]), tl t)
           else Inl SyntaxError))"
| "parse_members 0 acc s = Inl RangeError"
| "parse_members (Suc n) acc s =
     (let t = skip_ws s in
      if t = [] \<or> hd t \<noteq> CHR 0x22 then Inl SyntaxError
      else
        (case parse_string (tl t) of
           Inl e \<Rightarrow> Inl e
         | Inr (k, r) \<Rightarrow>
             (let r1 = skip_ws r in
              if r1 = [] \<or> hd r1 \<noteq> CHR '':'' then Inl SyntaxError
              else
                (case parse_value n (tl r1) of
                   Inl e \<Rightarrow> Inl e
                 | Inr (v, r2) \<Rightarrow>
                     (let t2 = skip_ws r2 in
                      if t2 = [] then Inl SyntaxError
                      else if hd t2 = CHR '','' then parse_members n (AList.update k v acc) (tl t2)
                      else if hd t2 = CHR ''}'' then Inr (JObject (AList.update k v acc), tl t2)
                      else Inl SyntaxError)))))"

definition json_parse :: "string \<Rightarrow> exn + jsval" where
  "json_parse s =
     (case parse_value (2 * length s + 2) s of
        Inl e \<Rightarrow> Inl e
      | Inr (v, r) \<Rightarrow> if skip_ws r = [] then Inr v else Inl SyntaxError)"

definition node :: platform where
  "node = \<lparr>
     Buffer_from_base64url = (\<lambda>s. Inr (base64_decode s)),
     toString_utf8 = (\<lambda>b. Inr (utf8_decode b)),
     JSON_parse = json_parse,
     JSON_stringify_depth = 1000\<rparr>"


section \<open>Example requests and vocabulary of the properties\<close>

text \<open>
  The header of the specification's first end-to-end scenario: its middle segment is the
  base64url text of \<open>{"email":"a@b.com","sub":"u1"}\<close>.
\<close>

definition example_token :: string where
  "example_token = ''eyJhbGciOiJub25lIn0.eyJlbWFpbCI6ImFAYi5jb20iLCJzdWIiOiJ1MSJ9.sig''"

definition example_user :: User where
  "example_user = \<lparr>User.id' = JString ''u1'', email = JString ''a@b.com'',
     name = JUndefined, avatar_url = JUndefined\<rparr>"

text \<open>
  Tokens whose payloads are \<open>{"sub":"u1"}\<close>, \<open>{"email":42}\<close>,
  \<open>{"email":"a@b.com","picture":"","avatar_url":"x"}\<close> and
  \<open>{"email":"a@b.com","name":""}\<close>.
\<close>

definition token_without_email :: string where
  "token_without_email = ''a.eyJzdWIiOiJ1MSJ9.c''"

definition token_numeric_email :: string where
  "token_numeric_email = ''a.eyJlbWFpbCI6NDJ9.c''"

definition token_empty_picture :: string where
  "token_empty_picture =
     ''a.eyJlbWFpbCI6ImFAYi5jb20iLCJwaWN0dXJlIjoiIiwiYXZhdGFyX3VybCI6IngifQ.c''"

definition token_empty_name :: string where
  "token_empty_name = ''a.eyJlbWFpbCI6ImFAYi5jb20iLCJuYW1lIjoiIn0.c''"

text \<open>The pieces put together again, with the separator between them.\<close>

fun join :: "char \<Rightarrow> string list \<Rightarrow> string" where
  "join d [] = []"
| "join d [p] = p"
| "join d (p # q # ps) = p @ d # join d (q # ps)"

text \<open>A value is a non-empty string; a claim is a string or absent, as \<open>JWTPayload\<close> declares.\<close>

fun nonempty_string :: "jsval \<Rightarrow> bool" where
  "nonempty_string (JString s) = (s \<noteq> [])"
| "nonempty_string v = False"

fun string_or_absent :: "jsval \<Rightarrow> bool" where
  "string_or_absent JUndefined = True"
| "string_or_absent (JString s) = True"
| "string_or_absent v = False"

text \<open>
  A claims payload is a JSON object. The payload of \<open>token_number_payload\<close> is the JSON
  text \<open>1\<close>.
\<close>

fun claims_payload :: "jsval \<Rightarrow> bool" where
  "claims_payload (JObject ps) = True"
| "claims_payload v = False"

definition token_number_payload :: string where
  "token_number_payload = ''a.MQ.c''"

text \<open>
  The payload of \<open>token_infinite_email\<close> is \<open>{"email":1e999}\<close>; the literal is beyond
  the doubles and reads as \<open>Infinity\<close>.
\<close>

definition token_infinite_email :: string where
  "token_infinite_email = ''a.eyJlbWFpbCI6MWU5OTl9.c''"

text \<open>
  Payloads whose \<open>email\<close> claim is an array inside arrays. \<open>nested n\<close> is the empty
  array with \<open>n\<close> arrays around it and \<open>deep_text n\<close> the JSON text
  \<open>{"email":[[\<dots>]]}\<close> that holds it. In base64url, \<open>eyJlbWFpbCI6\<close> is
  \<open>{"email":\<close>, \<open>W1tb\<close> is \<open>[[[\<close>, \<open>XV1d\<close> is \<open>]]]\<close> and \<open>fQ\<close> is \<open>}\<close>, so
  the payload of \<open>token_deep_email m\<close> is \<open>deep_text (3 * m - 1)\<close>. With \<open>m = 1667\<close>
  the header has 13354 characters.
\<close>

fun nested :: "nat \<Rightarrow> jsval" where
  "nested 0 = JArray []"
| "nested (Suc n) = JArray [nested n]"

definition deep_text :: "nat \<Rightarrow> string" where
  "deep_text n =
     CHR ''{'' # CHR 0x22 # ''email'' @ [CHR 0x22, CHR '':''] @
     replicate (Suc n) CHR ''['' @ replicate (Suc n) CHR '']'' @ ''}''"

definition token_deep_email :: "nat \<Rightarrow> string" where
  "token_deep_email m =
     ''a'' @ ''.'' @
     (''eyJlbWFpbCI6'' @ concat (replicate m ''W1tb'') @ concat (replicate m ''XV1d'') @ ''fQ'')
     @ ''.'' @ ''c''"

section \<open>Properties of \<open>split\<close>\<close>

lemma split_not_Nil: "split d s \<noteq> []"
  by (induction s) (simp_all add: Let_def)

lemma split_no_sep: "d \<notin> set s \<Longrightarrow> split d s = [s]"
  by (induction s) (auto simp: Let_def)

lemma split_append_sep: "d \<notin> set a \<Longrightarrow> split d (a @ d # r) = a # split d r"
  by (induction a) (auto simp: Let_def)

text \<open>A string has one segment more than it has separators.\<close>

lemma length_split: "length (split d s) = Suc (count_list s d)"
  by (induction s) (simp_all add: Let_def split_not_Nil)

text \<open>
  \<open>split\<close> cuts at every separator and nowhere else: no piece holds a separator, and
  the pieces joined by the separator are the string.
\<close>

lemma split_pieces: "p \<in> set (split d s) \<Longrightarrow> d \<notin> set p"
proof (induction s arbitrary: p)
  case Nil
  then show ?case by simp
next
  case (Cons c cs)
  obtain x xs where x: "split d cs = x # xs"
    using split_not_Nil [of d cs] by (cases "split d cs") auto
  with Cons show ?case
    by (auto simp: Let_def split: if_splits)
qed

lemma join_split: "join d (split d s) = s"
proof (induction s)
  case Nil
  show ?case by simp
next
  case (Cons c cs)
  obtain x xs where x: "split d cs = x # xs"
    using split_not_Nil [of d cs] by (cases "split d cs") auto
  with Cons show ?case
    by (cases xs) (auto simp: Let_def)
qed

lemma split_three:
  assumes "CHR ''.'' \<notin> set h" "CHR ''.'' \<notin> set m" "CHR ''.'' \<notin> set s"
  shows "split CHR ''.'' (h @ ''.'' @ m @ ''.'' @ s) = [h, m, s]"
  using assms by (simp add: split_append_sep split_no_sep)

section \<open>The reference instance on examples\<close>

text \<open>
  Padding is optional, both alphabets are read, other characters are skipped, decoding
  stops at \<open>=\<close>, and one sextet alone gives no byte.
\<close>

lemma base64_decode_examples:
  "base64_decode ''QUJD'' = ''ABC''"
  "base64_decode ''QUI='' = ''AB''"
  "base64_decode ''QUI'' = ''AB''"
  "base64_decode ''QQ=='' = ''A''"
  "base64_decode ''Q'' = []"
  "base64_decode ''Q U J D'' = ''ABC''"
  "base64_decode ''QQ==QUJD'' = ''A''"
  "base64_decode ''Pz8_'' = ''???''"
  "base64_decode ''Pz8/'' = ''???''"
  by code_simp+

lemma json_parse_examples:
  "json_parse ''null'' = Inr JNull"
  "json_parse '' [1, -2.5e1, true] '' =
     Inr (JArray [JNumber (Finite 1), JNumber (Finite (- 25)), JBool True])"
  "json_parse ''{ }x'' = Inl SyntaxError"
  "json_parse ''01'' = Inl SyntaxError"
  "json_parse ''1e999'' = Inr (JNumber PosInfinity)"
  "json_parse ''1e-999'' = Inr (JNumber (Finite 0))"
  by code_simp+

section \<open>The reference parser never runs out of fuel\<close>

text \<open>Every parser of the reference instance consumes input when it succeeds.\<close>

lemma length_skip_ws: "length (skip_ws s) \<le> length s"
  by (simp add: skip_ws_def length_dropWhile_le)

lemma scan_string_shorter:
  "scan_string acc s = Inr (us, r) \<Longrightarrow> length r < length s"
proof (induction "length s" arbitrary: acc s rule: less_induct)
  case less
  show ?case
  proof (cases s)
    case Nil
    with less.prems show ?thesis by simp
  next
    case (Cons c t)
    note s = Cons
    show ?thesis
    proof (cases "c = CHR 0x22")
      case True
      with less.prems s show ?thesis by simp
    next
      case quote: False
      show ?thesis
      proof (cases "c = CHR 0x5C")
        case False
        with quote less.prems s
        have "scan_string (Byte c # acc) t = Inr (us, r)"
          by (simp split: if_splits)
        from less.hyps [OF _ this] s show ?thesis by simp
      next
        case True
        show ?thesis
        proof (cases t)
          case Nil
          with True quote less.prems s show ?thesis by simp
        next
          case (Cons e t')
          show ?thesis
          proof (cases "e = CHR ''u''")
            case True
            with \<open>c = CHR 0x5C\<close> quote less.prems s Cons
            obtain n where n: "scan_string (Unit n # acc) (drop 4 t') = Inr (us, r)"
              by (simp split: option.splits)
            have "length (drop 4 t') < length s"
              using s Cons by simp
            from less.hyps [OF this n] have "length r < length (drop 4 t')" .
            then show ?thesis using s Cons by simp
          next
            case False
            with \<open>c = CHR 0x5C\<close> quote less.prems s Cons
            obtain x where "scan_string (Byte x # acc) t' = Inr (us, r)"
              by (simp split: option.splits)
            from less.hyps [OF _ this] s Cons show ?thesis by simp
          qed
        qed
      qed
    qed
  qed
qed

lemma parse_string_shorter:
  "parse_string s = Inr (x, r) \<Longrightarrow> length r < length s"
  by (auto simp: parse_string_def split: sum.splits dest: scan_string_shorter)

lemma int_part_shorter:
  "int_part s = (ip, r) \<Longrightarrow> length r \<le> length s \<and> (ip \<noteq> [] \<longrightarrow> length r < length s)"
proof -
  assume a: "int_part s = (ip, r)"
  have "length (takeWhile is_digit s) \<le> length s"
    by (rule length_takeWhile_le)
  with a show ?thesis
    by (cases "takeWhile is_digit s") (auto simp: int_part_def Let_def split: if_splits)
qed

lemma frac_part_shorter: "frac_part s = Some (fd, r) \<Longrightarrow> length r \<le> length s"
  by (auto simp: frac_part_def Let_def split: if_splits)

lemma exp_part_shorter: "exp_part s = Some (e, r) \<Longrightarrow> length r \<le> length s"
  by (auto simp: exp_part_def Let_def split: if_splits)

lemma parse_number_shorter:
  assumes "parse_number s = Inr (v, r)"
  shows "length r < length s"
proof -
  obtain ip s2 where i: "int_part (if s \<noteq> [] \<and> hd s = CHR ''-'' then tl s else s) = (ip, s2)"
    by (cases "int_part (if s \<noteq> [] \<and> hd s = CHR ''-'' then tl s else s)")
  with assms have ip: "ip \<noteq> []"
    by (auto simp: parse_number_def Let_def)
  with assms i obtain fd s3 where f: "frac_part s2 = Some (fd, s3)"
    by (auto simp: parse_number_def Let_def split: option.splits)
  with assms i ip obtain e where x: "exp_part s3 = Some (e, r)"
    by (auto simp: parse_number_def Let_def split: option.splits)
  from int_part_shorter [OF i] ip
  have "length s2 < length (if s \<noteq> [] \<and> hd s = CHR ''-'' then tl s else s)" by simp
  then have "length s2 < length s" by (simp split: if_splits)
  with frac_part_shorter [OF f] exp_part_shorter [OF x] show ?thesis by simp
qed


lemma tl_skip_ws_shorter: "skip_ws s \<noteq> [] \<Longrightarrow> length (tl (skip_ws s)) < length s"
  using length_skip_ws [of s] by (cases "skip_ws s") auto

lemma skip_ws_tl_skip_ws_shorter:
  "skip_ws s \<noteq> [] \<Longrightarrow> length (skip_ws (tl (skip_ws s))) < length s"
  using tl_skip_ws_shorter [of s] length_skip_ws [of "tl (skip_ws s)"] by simp

lemma parse_value_step:
  assumes e: "\<And>acc s v r. parse_elements n acc s = Inr (v, r) \<Longrightarrow> length r < length s"
    and m: "\<And>acc s v r. parse_members n acc s = Inr (v, r) \<Longrightarrow> length r < length s"
    and p: "parse_value (Suc n) s = Inr (v, r)"
  shows "length r < length s"
proof -
  define t where "t = skip_ws s"
  have ts: "length t \<le> length s"
    by (simp add: t_def length_skip_ws)
  from p have ne: "t \<noteq> []"
    by (auto simp: t_def Let_def)
  then have tl: "length (tl t) < length s"
    using ts by (cases t) auto
  have tl2: "length (skip_ws (tl t)) < length s"
    using tl length_skip_ws [of "tl t"] by simp
  consider (obj) "hd t = CHR ''{''"
    | (arr) "hd t \<noteq> CHR ''{''" "hd t = CHR ''[''"
    | (str) "hd t \<noteq> CHR ''{''" "hd t \<noteq> CHR ''[''" "hd t = CHR 0x22"
    | (num) "hd t \<noteq> CHR ''{''" "hd t \<noteq> CHR ''[''" "hd t \<noteq> CHR 0x22"
        "hd t = CHR ''-'' \<or> is_digit (hd t)"
    | (lit) "hd t \<noteq> CHR ''{''" "hd t \<noteq> CHR ''[''" "hd t \<noteq> CHR 0x22"
        "\<not> (hd t = CHR ''-'' \<or> is_digit (hd t))"
    by blast
  then show ?thesis
  proof cases
    case obj
    with p ne have "(skip_ws (tl t) \<noteq> [] \<and> hd (skip_ws (tl t)) = CHR ''}'' \<and> r = tl (skip_ws (tl t)))
        \<or> parse_members n [] (skip_ws (tl t)) = Inr (v, r)"
      by (auto simp: t_def [symmetric] Let_def split: if_splits)
    then show ?thesis
    proof
      assume "skip_ws (tl t) \<noteq> [] \<and> hd (skip_ws (tl t)) = CHR ''}'' \<and> r = tl (skip_ws (tl t))"
      then have "length r \<le> length (skip_ws (tl t))" by simp
      with tl2 show ?thesis by simp
    next
      assume "parse_members n [] (skip_ws (tl t)) = Inr (v, r)"
      from m [OF this] tl2 show ?thesis by simp
    qed
  next
    case arr
    with p ne have "(skip_ws (tl t) \<noteq> [] \<and> hd (skip_ws (tl t)) = CHR '']'' \<and> r = tl (skip_ws (tl t)))
        \<or> parse_elements n [] (skip_ws (tl t)) = Inr (v, r)"
      by (auto simp: t_def [symmetric] Let_def split: if_splits)
    then show ?thesis
    proof
      assume "skip_ws (tl t) \<noteq> [] \<and> hd (skip_ws (tl t)) = CHR '']'' \<and> r = tl (skip_ws (tl t))"
      then have "length r \<le> length (skip_ws (tl t))" by simp
      with tl2 show ?thesis by simp
    next
      assume "parse_elements n [] (skip_ws (tl t)) = Inr (v, r)"
      from e [OF this] tl2 show ?thesis by simp
    qed
  next
    case str
    with p ne obtain x where "parse_string (tl t) = Inr (x, r)"
      by (auto simp: t_def [symmetric] Let_def split: if_splits sum.splits)
    from parse_string_shorter [OF this] tl show ?thesis by simp
  next
    case num
    with p ne have "parse_number t = Inr (v, r)"
      by (auto simp: t_def [symmetric] Let_def split: if_splits)
    from parse_number_shorter [OF this] ts show ?thesis by simp
  next
    case lit
    with p ne have "r = drop 4 t \<or> r = drop 5 t"
      by (auto simp: t_def [symmetric] Let_def split: if_splits)
    with ne ts show ?thesis by (cases t) auto
  qed
qed


lemma parse_elements_step:
  assumes pv: "\<And>s v r. parse_value n s = Inr (v, r) \<Longrightarrow> length r < length s"
    and e: "\<And>acc s v r. parse_elements n acc s = Inr (v, r) \<Longrightarrow> length r < length s"
    and p: "parse_elements (Suc n) acc s = Inr (v, r)"
  shows "length r < length s"
proof -
  from p obtain x r1 where x: "parse_value n s = Inr (x, r1)"
    by (auto split: sum.splits)
  define t where "t = skip_ws r1"
  from pv [OF x] have r1: "length r1 < length s" .
  have ts: "length t \<le> length r1"
    by (simp add: t_def length_skip_ws)
  from p x have ne: "t \<noteq> []"
    by (auto simp: t_def Let_def)
  from p x ne have "parse_elements n (acc @ [x]) (tl t) = Inr (v, r) \<or> r = tl t"
    by (auto simp: t_def [symmetric] Let_def split: if_splits)
  then show ?thesis
  proof
    assume "parse_elements n (acc @ [x]) (tl t) = Inr (v, r)"
    from e [OF this] ts r1 show ?thesis by simp
  next
    assume "r = tl t"
    with ts r1 show ?thesis by simp
  qed
qed

lemma parse_members_step:
  assumes pv: "\<And>s v r. parse_value n s = Inr (v, r) \<Longrightarrow> length r < length s"
    and m: "\<And>acc s v r. parse_members n acc s = Inr (v, r) \<Longrightarrow> length r < length s"
    and p: "parse_members (Suc n) acc s = Inr (v, r)"
  shows "length r < length s"
proof -
  define t where "t = skip_ws s"
  have ts: "length t \<le> length s"
    by (simp add: t_def length_skip_ws)
  from p have ne: "t \<noteq> []" and q: "hd t = CHR 0x22"
    by (auto simp: t_def Let_def split: if_splits)
  from p ne q obtain k r0 where k: "parse_string (tl t) = Inr (k, r0)"
    by (auto simp: t_def [symmetric] Let_def split: if_splits sum.splits)
  define r1 where "r1 = skip_ws r0"
  from parse_string_shorter [OF k] ts have r0: "length r0 < length s"
    by simp
  have r1s: "length r1 \<le> length r0"
    by (simp add: r1_def length_skip_ws)
  from p ne q k have c: "r1 \<noteq> []"
    by (auto simp: t_def [symmetric] r1_def Let_def split: if_splits)
  from p ne q k c obtain x r2 where x: "parse_value n (tl r1) = Inr (x, r2)"
    by (auto simp: t_def [symmetric] r1_def [symmetric] Let_def split: if_splits sum.splits)
  define t2 where "t2 = skip_ws r2"
  from pv [OF x] r1s r0 have r2: "length r2 < length s"
    by simp
  have t2s: "length t2 \<le> length r2"
    by (simp add: t2_def length_skip_ws)
  from p ne q k c x
  have "parse_members n (AList.update k x acc) (tl t2) = Inr (v, r) \<or> r = tl t2"
    by (auto simp: t_def [symmetric] r1_def [symmetric] t2_def [symmetric] Let_def
        split: if_splits)
  then show ?thesis
  proof
    assume "parse_members n (AList.update k x acc) (tl t2) = Inr (v, r)"
    from m [OF this] t2s r2 show ?thesis by simp
  next
    assume "r = tl t2"
    with t2s r2 show ?thesis by simp
  qed
qed

lemma parse_shorter_all:
  "(\<forall>s v r. parse_value n s = Inr (v, r) \<longrightarrow> length r < length s) \<and>
   (\<forall>acc s v r. parse_elements n acc s = Inr (v, r) \<longrightarrow> length r < length s) \<and>
   (\<forall>acc s v r. parse_members n acc s = Inr (v, r) \<longrightarrow> length r < length s)"
proof (induction n)
  case 0
  show ?case by simp
next
  case (Suc n)
  then have pv: "\<And>s v r. parse_value n s = Inr (v, r) \<Longrightarrow> length r < length s"
    and e: "\<And>acc s v r. parse_elements n acc s = Inr (v, r) \<Longrightarrow> length r < length s"
    and m: "\<And>acc s v r. parse_members n acc s = Inr (v, r) \<Longrightarrow> length r < length s"
    by blast+
  show ?case
  proof (intro conjI allI impI)
    fix s v r assume "parse_value (Suc n) s = Inr (v, r)"
    with e m show "length r < length s"
      by (rule parse_value_step [where n = n])
  next
    fix acc s v r assume "parse_elements (Suc n) acc s = Inr (v, r)"
    with pv e show "length r < length s"
      by (rule parse_elements_step [where n = n])
  next
    fix acc s v r assume "parse_members (Suc n) acc s = Inr (v, r)"
    with pv m show "length r < length s"
      by (rule parse_members_step [where n = n])
  qed
qed

lemma parse_value_shorter: "parse_value n s = Inr (v, r) \<Longrightarrow> length r < length s"
  using parse_shorter_all by blast


text \<open>
  The string and number scanners raise nothing but a \<open>SyntaxError\<close>; with fuel above
  twice the length of the input, the three mutually recursive parsers never report an
  empty tank.
\<close>

lemma scan_string_error: "scan_string acc s = Inl e \<Longrightarrow> e = SyntaxError"
proof (induction "length s" arbitrary: acc s rule: less_induct)
  case less
  show ?case
  proof (cases s)
    case Nil
    with less.prems show ?thesis by simp
  next
    case (Cons c t)
    note s = Cons
    show ?thesis
    proof (cases "c = CHR 0x5C")
      case False
      with less.prems s
      have "scan_string (Byte c # acc) t = Inl e \<or> e = SyntaxError"
        by (auto split: if_splits)
      with less.hyps [of t "Byte c # acc"] s show ?thesis by auto
    next
      case True
      show ?thesis
      proof (cases t)
        case Nil
        with True less.prems s show ?thesis by simp
      next
        case (Cons x t')
        with True less.prems s
        have "(\<exists>n. scan_string (Unit n # acc) (drop 4 t') = Inl e) \<or>
            (\<exists>y. scan_string (Byte y # acc) t' = Inl e) \<or> e = SyntaxError"
          by (auto split: if_splits option.splits)
        moreover have "length (drop 4 t') < length s" "length t' < length s"
          using s Cons by simp_all
        ultimately show ?thesis
          using less.hyps [of "drop 4 t'"] less.hyps [of t'] by blast
      qed
    qed
  qed
qed

lemma parse_string_error: "parse_string s = Inl e \<Longrightarrow> e = SyntaxError"
  by (auto simp: parse_string_def split: sum.splits dest: scan_string_error)

lemma parse_number_error: "parse_number s = Inl e \<Longrightarrow> e = SyntaxError"
  by (auto simp: parse_number_def Let_def split: if_splits option.splits prod.splits)

lemma parse_value_fuel_step:
  assumes e: "\<And>acc s. 2 * length s + 1 < n \<Longrightarrow> parse_elements n acc s \<noteq> Inl RangeError"
    and m: "\<And>acc s. 2 * length s + 1 < n \<Longrightarrow> parse_members n acc s \<noteq> Inl RangeError"
    and f: "2 * length s < Suc n"
  shows "parse_value (Suc n) s \<noteq> Inl RangeError"
proof
  assume p: "parse_value (Suc n) s = Inl RangeError"
  define t where "t = skip_ws s"
  have ts: "length t \<le> length s"
    by (simp add: t_def length_skip_ws)
  from p have ne: "t \<noteq> []"
    by (auto simp: t_def Let_def)
  then have "length (tl t) < length s"
    using ts by (cases t) auto
  then have "length (skip_ws (tl t)) < length s"
    using length_skip_ws [of "tl t"] by simp
  with f have fuel: "2 * length (skip_ws (tl t)) + 1 < n"
    by simp
  from p ne have "parse_members n [] (skip_ws (tl t)) = Inl RangeError
      \<or> parse_elements n [] (skip_ws (tl t)) = Inl RangeError
      \<or> parse_string (tl t) = Inl RangeError \<or> parse_number t = Inl RangeError"
    by (auto simp: t_def [symmetric] Let_def split: if_splits sum.splits)
  with e [OF fuel] m [OF fuel] show False
    by (auto dest: parse_string_error parse_number_error)
qed

lemma parse_elements_fuel_step:
  assumes pv: "\<And>s. 2 * length s < n \<Longrightarrow> parse_value n s \<noteq> Inl RangeError"
    and e: "\<And>acc s. 2 * length s + 1 < n \<Longrightarrow> parse_elements n acc s \<noteq> Inl RangeError"
    and f: "2 * length s + 1 < Suc n"
  shows "parse_elements (Suc n) acc s \<noteq> Inl RangeError"
proof
  assume p: "parse_elements (Suc n) acc s = Inl RangeError"
  from f have "2 * length s < n" by simp
  from pv [OF this] p obtain x r1 where x: "parse_value n s = Inr (x, r1)"
    by (auto split: sum.splits)
  define t where "t = skip_ws r1"
  from parse_value_shorter [OF x] have r1: "length r1 < length s" .
  have ts: "length t \<le> length r1"
    by (simp add: t_def length_skip_ws)
  from p x have ne: "t \<noteq> []"
    by (auto simp: t_def Let_def)
  with ts r1 f have "2 * length (tl t) + 1 < n"
    by (cases t) auto
  from e [OF this] p x ne show False
    by (auto simp: t_def [symmetric] Let_def split: if_splits)
qed

lemma parse_members_fuel_step:
  assumes pv: "\<And>s. 2 * length s < n \<Longrightarrow> parse_value n s \<noteq> Inl RangeError"
    and m: "\<And>acc s. 2 * length s + 1 < n \<Longrightarrow> parse_members n acc s \<noteq> Inl RangeError"
    and f: "2 * length s + 1 < Suc n"
  shows "parse_members (Suc n) acc s \<noteq> Inl RangeError"
proof
  assume p: "parse_members (Suc n) acc s = Inl RangeError"
  define t where "t = skip_ws s"
  have ts: "length t \<le> length s"
    by (simp add: t_def length_skip_ws)
  from p have ne: "t \<noteq> []" and q: "hd t = CHR 0x22"
    by (auto simp: t_def Let_def split: if_splits)
  from p ne q obtain k r0 where k: "parse_string (tl t) = Inr (k, r0)"
    by (auto simp: t_def [symmetric] Let_def split: if_splits sum.splits
        dest: parse_string_error)
  define r1 where "r1 = skip_ws r0"
  from parse_string_shorter [OF k] ts have r0: "length r0 < length s"
    by simp
  have r1s: "length r1 \<le> length r0"
    by (simp add: r1_def length_skip_ws)
  from p ne q k have c: "r1 \<noteq> []" "hd r1 = CHR '':''"
    by (auto simp: t_def [symmetric] r1_def Let_def split: if_splits)
  from r1s r0 f have "2 * length (tl r1) < n"
    by simp
  from pv [OF this] p ne q k c obtain x r2 where x: "parse_value n (tl r1) = Inr (x, r2)"
    by (auto simp: t_def [symmetric] r1_def [symmetric] Let_def split: if_splits sum.splits)
  define t2 where "t2 = skip_ws r2"
  from parse_value_shorter [OF x] r1s r0 have r2: "length r2 < length s"
    by simp
  have t2s: "length t2 \<le> length r2"
    by (simp add: t2_def length_skip_ws)
  from t2s r2 f have "2 * length (tl t2) + 1 < n"
    by simp
  from m [OF this] p ne q k c x show False
    by (auto simp: t_def [symmetric] r1_def [symmetric] t2_def [symmetric] Let_def
        split: if_splits)
qed

lemma parse_fuel_all:
  "(\<forall>s. 2 * length s < n \<longrightarrow> parse_value n s \<noteq> Inl RangeError) \<and>
   (\<forall>acc s. 2 * length s + 1 < n \<longrightarrow> parse_elements n acc s \<noteq> Inl RangeError) \<and>
   (\<forall>acc s. 2 * length s + 1 < n \<longrightarrow> parse_members n acc s \<noteq> Inl RangeError)"
proof (induction n)
  case 0
  show ?case by simp
next
  case (Suc n)
  then have pv: "\<And>s. 2 * length s < n \<Longrightarrow> parse_value n s \<noteq> Inl RangeError"
    and e: "\<And>acc s. 2 * length s + 1 < n \<Longrightarrow> parse_elements n acc s \<noteq> Inl RangeError"
    and m: "\<And>acc s. 2 * length s + 1 < n \<Longrightarrow> parse_members n acc s \<noteq> Inl RangeError"
    by blast+
  show ?case
  proof (intro conjI allI impI)
    fix s :: string assume "2 * length s < Suc n"
    with e m show "parse_value (Suc n) s \<noteq> Inl RangeError"
      by (rule parse_value_fuel_step [where n = n])
  next
    fix acc and s :: string assume "2 * length s + 1 < Suc n"
    with pv e show "parse_elements (Suc n) acc s \<noteq> Inl RangeError"
      by (rule parse_elements_fuel_step [where n = n])
  next
    fix acc and s :: string assume "2 * length s + 1 < Suc n"
    with pv m show "parse_members (Suc n) acc s \<noteq> Inl RangeError"
      by (rule parse_members_fuel_step [where n = n])
  qed
qed

lemma json_parse_fuel: "json_parse s \<noteq> Inl RangeError"
proof -
  have "parse_value (2 * length s + 2) s \<noteq> Inl RangeError"
    using parse_fuel_all [of "2 * length s + 2"] by simp
  then show ?thesis
    by (auto simp: json_parse_def split: sum.splits if_splits)
qed

text \<open>On ASCII text the UTF-8 decoder is the identity.\<close>

lemma utf8_decode_ascii:
  "\<forall>c \<in> set s. (of_char c :: nat) < 128 \<Longrightarrow> utf8_decode s = s"
  unfolding utf8_decode_def by (induction s) (simp_all add: utf8_lead_def Let_def)

section \<open>The reference instance on nested arrays\<close>

text \<open>
  Nesting has no bound that evaluation could reach, so the reference decoders are followed
  by induction on the nesting. Base64 first: a text of whole groups of four decodes group
  by group.
\<close>

lemma unbase64_not_pad: "unbase64 c \<noteq> None \<Longrightarrow> c \<noteq> CHR ''=''"
  by (auto simp: unbase64_def)

lemma map_filter_append:
  "List.map_filter f (xs @ ys) = List.map_filter f xs @ List.map_filter f ys"
  by (simp add: List.map_filter_def)

lemma length_map_filter_all:
  "\<forall>c \<in> set x. f c \<noteq> None \<Longrightarrow> length (List.map_filter f x) = length x"
  by (induction x) (auto simp: List.map_filter_def)

lemma sextet_bytes_append:
  "length a mod 4 = 0 \<Longrightarrow> sextet_bytes (a @ b) = sextet_bytes a @ sextet_bytes b"
proof (induction a rule: sextet_bytes.induct)
  case (1 a b c d r)
  then show ?case by simp
qed simp_all

lemma base64_decode_append:
  assumes "\<forall>c \<in> set x. unbase64 c \<noteq> None" and "length x mod 4 = 0"
  shows "base64_decode (x @ y) = base64_decode x @ base64_decode y"
proof -
  from assms(1) have np: "\<forall>c \<in> set x. c \<noteq> CHR ''=''"
    using unbase64_not_pad by blast
  then have tw: "takeWhile (\<lambda>c. c \<noteq> CHR ''='') (x @ y) = x @ takeWhile (\<lambda>c. c \<noteq> CHR ''='') y"
    by (simp add: takeWhile_append2)
  from np have twx: "takeWhile (\<lambda>c. c \<noteq> CHR ''='') x = x"
    by (simp add: takeWhile_eq_all_conv)
  from assms have len: "length (List.map_filter unbase64 x) mod 4 = 0"
    by (simp add: length_map_filter_all)
  show ?thesis
    unfolding base64_decode_def tw twx map_filter_append
    by (simp add: sextet_bytes_append [OF len])
qed

lemma base64_decode_chunks:
  assumes "\<forall>c \<in> set w. unbase64 c \<noteq> None" and "length w = 4"
  shows "base64_decode (concat (replicate m w) @ y) =
           concat (replicate m (base64_decode w)) @ base64_decode y"
proof (induction m)
  case 0
  show ?case by simp
next
  case (Suc m)
  have "base64_decode (w @ (concat (replicate m w) @ y)) =
          base64_decode w @ base64_decode (concat (replicate m w) @ y)"
    using assms by (intro base64_decode_append) simp_all
  with Suc show ?case by simp
qed

lemma concat_replicate_3: "concat (replicate m [c, c, c]) = replicate (3 * m) c"
  by (induction m) (simp_all add: replicate_add numeral_3_eq_3)

lemma base64_decode_pieces:
  "base64_decode ''eyJlbWFpbCI6'' = CHR ''{'' # CHR 0x22 # ''email'' @ [CHR 0x22, CHR '':'']"
  "base64_decode ''W1tb'' = ''[[[''"
  "base64_decode ''XV1d'' = '']]]''"
  "base64_decode ''fQ'' = ''}''"
  by code_simp+

lemma unbase64_pieces:
  "\<forall>c \<in> set ''eyJlbWFpbCI6''. unbase64 c \<noteq> None"
  "\<forall>c \<in> set ''W1tb''. unbase64 c \<noteq> None"
  "\<forall>c \<in> set ''XV1d''. unbase64 c \<noteq> None"
  by code_simp+

lemma base64_decode_email:
  "base64_decode (''eyJlbWFpbCI6'' @ r) =
     CHR ''{'' # CHR 0x22 # ''email'' @ [CHR 0x22, CHR '':''] @ base64_decode r"
  by (subst base64_decode_append) (simp_all add: unbase64_pieces base64_decode_pieces)

lemma base64_decode_open:
  "base64_decode (concat (replicate m ''W1tb'') @ r) =
     replicate (3 * m) CHR ''['' @ base64_decode r"
  by (subst base64_decode_chunks)
     (simp_all add: unbase64_pieces base64_decode_pieces concat_replicate_3)

lemma base64_decode_close:
  "base64_decode (concat (replicate m ''XV1d'') @ r) =
     replicate (3 * m) CHR '']'' @ base64_decode r"
  by (subst base64_decode_chunks)
     (simp_all add: unbase64_pieces base64_decode_pieces concat_replicate_3)

lemma base64_decode_deep:
  "base64_decode (''eyJlbWFpbCI6'' @ concat (replicate (Suc k) ''W1tb'') @
                   concat (replicate (Suc k) ''XV1d'') @ ''fQ'') = deep_text (3 * k + 2)"
  unfolding base64_decode_email base64_decode_open base64_decode_close base64_decode_pieces
    deep_text_def
  by (simp add: replicate_add numeral_3_eq_3)

lemma deep_text_ascii: "\<forall>c \<in> set (deep_text n). (of_char c :: nat) < 128"
  by (auto simp: deep_text_def)

text \<open>The parser: every level of brackets costs two units of fuel.\<close>

lemma parse_nested_step:
  assumes "parse_value f (CHR ''['' # s) = Inr (v, CHR '']'' # rest)"
  shows "parse_value (Suc (Suc f)) (CHR ''['' # CHR ''['' # s) = Inr (JArray [v], rest)"
  using assms by (simp add: skip_ws_def is_ws_def)

lemma parse_nested:
  "2 * n + 1 \<le> f \<Longrightarrow>
   parse_value f (replicate (Suc n) CHR ''['' @ replicate (Suc n) CHR '']'' @ rest) =
     Inr (nested n, rest)"
proof (induction n arbitrary: f rest)
  case 0
  then obtain g where "f = Suc g" by (cases f) auto
  then show ?case by (simp add: skip_ws_def is_ws_def)
next
  case (Suc n)
  then obtain g where f: "f = Suc (Suc g)" and g: "2 * n + 1 \<le> g"
    by (cases f; cases "f - 1") auto
  have "parse_value g (CHR ''['' # replicate n CHR ''['' @ replicate (Suc n) CHR '']'' @
                        CHR '']'' # rest) = Inr (nested n, CHR '']'' # rest)"
    using Suc.IH [OF g, of "CHR '']'' # rest"] by simp
  then have "parse_value (Suc (Suc g))
               (CHR ''['' # CHR ''['' # replicate n CHR ''['' @ replicate (Suc n) CHR '']'' @
                  CHR '']'' # rest) = Inr (JArray [nested n], rest)"
    by (rule parse_nested_step)
  then show ?case
    by (simp add: f replicate_app_Cons_same)
qed

lemma parse_email_object:
  assumes "parse_value f s = Inr (v, ''}'')"
  shows "parse_value (Suc (Suc f)) (CHR ''{'' # CHR 0x22 # ''email'' @ [CHR 0x22, CHR '':''] @ s) =
           Inr (JObject [(''email'', v)], [])"
  using assms by (simp add: skip_ws_def is_ws_def parse_string_def)

lemma json_parse_deep: "json_parse (deep_text n) = Inr (JObject [(''email'', nested n)])"
proof -
  define f where "f = 2 * length (deep_text n)"
  have "2 * n + 1 \<le> f"
    by (simp add: f_def deep_text_def)
  then have "parse_value f (replicate (Suc n) CHR ''['' @ replicate (Suc n) CHR '']'' @ ''}'') =
               Inr (nested n, ''}'')"
    by (rule parse_nested)
  then have "parse_value (Suc (Suc f)) (deep_text n) = Inr (JObject [(''email'', nested n)], [])"
    unfolding deep_text_def by (rule parse_email_object)
  moreover have "2 * length (deep_text n) + 2 = Suc (Suc f)"
    by (simp add: f_def)
  ultimately show ?thesis
    by (simp add: json_parse_def skip_ws_def)
qed

lemma depth_nested: "depth (nested n) = Suc n"
  by (induction n) simp_all

lemma truthy_nested: "truthy (nested n)"
  by (cases n) simp_all

section \<open>The token decoder\<close>

text \<open>\<open>decodeJWT\<close> in one equation: the \<open>catch\<close> turns every exception into \<open>null\<close>.\<close>

lemma decodeJWT_eq:
  "decodeJWT P token =
     (if length (split CHR ''.'' token) = 3
      then (case decode_payload P (split CHR ''.'' token ! 1) of
              Inl e \<Rightarrow> Inr JNull
            | Inr v \<Rightarrow> Inr v)
      else Inr JNull)"
  by (simp add: decodeJWT_def decodeJWT_try_def Let_def split: sum.split)

text \<open>The payload segment fails to decode exactly when one of the three steps raises.\<close>

lemma decode_payload_Inl_iff:
  "(\<exists>e. decode_payload P seg = Inl e) \<longleftrightarrow>
     (\<exists>e. Buffer_from_base64url P seg = Inl e) \<or>
     (\<exists>buf e. Buffer_from_base64url P seg = Inr buf \<and> toString_utf8 P buf = Inl e) \<or>
     (\<exists>buf decoded e. Buffer_from_base64url P seg = Inr buf \<and> toString_utf8 P buf = Inr decoded
        \<and> JSON_parse P decoded = Inl e)"
  by (auto simp: decode_payload_def split: sum.splits)

lemma split_two_segments: "length (split CHR ''.'' ''not.a-token'') = 2"
  by code_simp

lemma split_bad_middle: "length (split CHR ''.'' ''a.!!.c'') = 3"
  by code_simp

lemma decode_bad_middle: "decode_payload node (split CHR ''.'' ''a.!!.c'' ! 1) = Inl SyntaxError"
  by code_simp

lemma split_example_token: "length (split CHR ''.'' example_token) = 3"
  by code_simp

lemma decode_example_middle:
  "decode_payload node (split CHR ''.'' example_token ! 1) =
     Inr (JObject [(''email'', JString ''a@b.com''), (''sub'', JString ''u1'')])"
  by code_simp

text \<open>
  C5, as amended. \<open>decodeJWT\<close> is total: on every token and every behaviour of the
  runtime it returns a value and raises nothing. A token that does not split into exactly
  three segments at \<open>.\<close> gives \<open>null\<close>, and so does a three-segment token whose middle
  segment raises in base64url decoding, UTF-8 decoding or JSON parsing. On every other
  token the result is the value \<open>JSON.parse\<close> returned for the middle segment, whatever
  it is: the cast to \<open>JWTPayload\<close> checks nothing.
\<close>

theorem decodeJWT_never_raises:
  "(\<exists>v. decodeJWT P token = Inr v) \<and>
   (length (split CHR ''.'' token) \<noteq> 3 \<longrightarrow> decodeJWT P token = Inr JNull) \<and>
   (\<forall>e. length (split CHR ''.'' token) = 3 \<and> decode_payload P (split CHR ''.'' token ! 1) = Inl e
        \<longrightarrow> decodeJWT P token = Inr JNull) \<and>
   (\<forall>v. length (split CHR ''.'' token) = 3 \<and> decode_payload P (split CHR ''.'' token ! 1) = Inr v
        \<longrightarrow> decodeJWT P token = Inr v)"
  by (simp add: decodeJWT_eq split: sum.split)

text \<open>
  A token of two segments, a token whose middle segment is no base64url text of JSON, and
  the example token.
\<close>

theorem decodeJWT_never_raises_witness:
  "length (split CHR ''.'' ''not.a-token'') \<noteq> 3 \<and> decodeJWT node ''not.a-token'' = Inr JNull \<and>
   length (split CHR ''.'' ''a.!!.c'') = 3 \<and>
   decode_payload node (split CHR ''.'' ''a.!!.c'' ! 1) = Inl SyntaxError \<and>
   decodeJWT node ''a.!!.c'' = Inr JNull \<and>
   length (split CHR ''.'' example_token) = 3 \<and>
   decode_payload node (split CHR ''.'' example_token ! 1) =
     Inr (JObject [(''email'', JString ''a@b.com''), (''sub'', JString ''u1'')]) \<and>
   decodeJWT node example_token =
     Inr (JObject [(''email'', JString ''a@b.com''), (''sub'', JString ''u1'')])"
  using decodeJWT_never_raises [of node "''not.a-token''"]
    decodeJWT_never_raises [of node "''a.!!.c''"]
    decodeJWT_never_raises [of node example_token]
    split_two_segments split_bad_middle decode_bad_middle
    split_example_token decode_example_middle
  by simp

text \<open>
  The claim as the specification words it, a claims payload or none, fails on \<open>a.MQ.c\<close>:
  the middle segment is the base64url text of \<open>1\<close>, and \<open>decodeJWT\<close> returns that
  number, which is neither an object of claims nor \<open>null\<close>.
\<close>

theorem decodeJWT_number_payload:
  "decodeJWT node token_number_payload = Inr (JNumber (Finite 1)) \<and>
   \<not> claims_payload (JNumber (Finite 1)) \<and>
   JNumber (Finite 1) \<noteq> JNull"
  by code_simp

lemma decodeJWT_total: "\<exists>v. decodeJWT P token = Inr v"
  by (simp add: decodeJWT_eq split: sum.split)

text \<open>Counted in separators: a token that does not hold exactly two dots decodes to \<open>null\<close>.\<close>

lemma decodeJWT_dots: "count_list token CHR ''.'' \<noteq> 2 \<Longrightarrow> decodeJWT P token = Inr JNull"
  by (simp add: decodeJWT_eq length_split)

lemma decode_example_token:
  "decodeJWT node example_token =
     Inr (JObject [(''email'', JString ''a@b.com''), (''sub'', JString ''u1'')])"
  by code_simp

lemma decode_token_without_email:
  "decodeJWT node token_without_email = Inr (JObject [(''sub'', JString ''u1'')])"
  by code_simp

lemma decode_token_numeric_email:
  "decodeJWT node token_numeric_email = Inr (JObject [(''email'', JNumber (Finite 42))])"
  by code_simp

lemma decode_one_segment: "decodeJWT node ''garbage'' = Inr JNull"
  by code_simp

lemma decode_token_empty_picture:
  "decodeJWT node token_empty_picture =
     Inr (JObject [(''email'', JString ''a@b.com''), (''picture'', JString []),
                   (''avatar_url'', JString ''x'')])"
  by code_simp

lemma decode_token_empty_name:
  "decodeJWT node token_empty_name =
     Inr (JObject [(''email'', JString ''a@b.com''), (''name'', JString [])])"
  by code_simp

text \<open>
  C10. The result of \<open>decodeJWT\<close> depends on the middle segment only: two tokens of
  three segments each with the same middle segment decode to the same result, whatever
  their first and last segments are.
\<close>

theorem decodeJWT_middle_only:
  assumes "length (split CHR ''.'' t1) = 3" and "length (split CHR ''.'' t2) = 3"
    and "split CHR ''.'' t1 ! 1 = split CHR ''.'' t2 ! 1"
  shows "decodeJWT P t1 = decodeJWT P t2"
  using assms by (simp add: decodeJWT_eq)

text \<open>The example token with its header and signature emptied decodes as before.\<close>

theorem decodeJWT_middle_only_witness:
  "length (split CHR ''.'' example_token) = 3 \<and>
   length (split CHR ''.'' ''.eyJlbWFpbCI6ImFAYi5jb20iLCJzdWIiOiJ1MSJ9.'') = 3 \<and>
   split CHR ''.'' example_token ! 1 =
     split CHR ''.'' ''.eyJlbWFpbCI6ImFAYi5jb20iLCJzdWIiOiJ1MSJ9.'' ! 1 \<and>
   decodeJWT node ''.eyJlbWFpbCI6ImFAYi5jb20iLCJzdWIiOiJ1MSJ9.'' =
     Inr (JObject [(''email'', JString ''a@b.com''), (''sub'', JString ''u1'')])"
proof -
  have a: "length (split CHR ''.'' example_token) = 3"
    and b: "length (split CHR ''.'' ''.eyJlbWFpbCI6ImFAYi5jb20iLCJzdWIiOiJ1MSJ9.'') = 3"
    and c: "split CHR ''.'' example_token ! 1 =
      split CHR ''.'' ''.eyJlbWFpbCI6ImFAYi5jb20iLCJzdWIiOiJ1MSJ9.'' ! 1"
    by code_simp+
  from decodeJWT_middle_only [OF a b c, of node] decode_example_token a b c
  show ?thesis by simp
qed

text \<open>The same with the segments written out: any header and signature will do.\<close>

lemma decodeJWT_segments:
  assumes "CHR ''.'' \<notin> set m"
    and "CHR ''.'' \<notin> set h" "CHR ''.'' \<notin> set s" "CHR ''.'' \<notin> set h'" "CHR ''.'' \<notin> set s'"
  shows "decodeJWT P (h @ ''.'' @ m @ ''.'' @ s) = decodeJWT P (h' @ ''.'' @ m @ ''.'' @ s')"
  using assms by (simp add: decodeJWT_eq split_append_sep split_no_sep)

text \<open>
  A header with an array nested in arrays as its \<open>email\<close> claim decodes, on the reference
  instance with a stack of any depth.
\<close>

lemma decode_payload_node:
  "decode_payload (node\<lparr>JSON_stringify_depth := d\<rparr>) p =
     json_parse (utf8_decode (base64_decode p))"
  by (simp add: decode_payload_def node_def)

lemma split_token_deep_email:
  "split CHR ''.'' (token_deep_email m) =
     [''a'',
      ''eyJlbWFpbCI6'' @ concat (replicate m ''W1tb'') @ concat (replicate m ''XV1d'') @ ''fQ'',
      ''c'']"
  unfolding token_deep_email_def
  by (rule split_three) auto

lemma decodeJWT_deep:
  "decodeJWT (node\<lparr>JSON_stringify_depth := d\<rparr>) (token_deep_email (Suc k)) =
     Inr (JObject [(''email'', nested (3 * k + 2))])"
proof -
  have "decode_payload (node\<lparr>JSON_stringify_depth := d\<rparr>)
          (''eyJlbWFpbCI6'' @ concat (replicate (Suc k) ''W1tb'') @
             concat (replicate (Suc k) ''XV1d'') @ ''fQ'') =
        Inr (JObject [(''email'', nested (3 * k + 2))])"
    unfolding decode_payload_node base64_decode_deep utf8_decode_ascii [OF deep_text_ascii]
    by (rule json_parse_deep)
  then show ?thesis
    by (simp add: decodeJWT_eq split_token_deep_email del: replicate_Suc replicate.simps)
qed

section \<open>The claim extractor\<close>

lemma extract_Some_truthy: "extractUserFromJWT payload = Inr (Some u) \<Longrightarrow> truthy payload"
  by (cases payload) simp_all

text \<open>On a truthy payload no property read raises.\<close>

lemma extract_truthy_total: "truthy payload \<Longrightarrow> \<exists>r. extractUserFromJWT payload = Inr r"
  by (cases payload) simp_all

text \<open>Only an object with a truthy \<open>email\<close> yields a user.\<close>

lemma extract_Some_object:
  "extractUserFromJWT payload = Inr (Some u) \<Longrightarrow>
     \<exists>ps. payload = JObject ps \<and> truthy (get ps ''email'')"
  by (cases payload) (simp_all split: if_splits)

lemma extract_user_truthy:
  "extractUserFromJWT payload = Inr (Some u) \<Longrightarrow> truthy (User.id' u) \<and> truthy (User.email u)"
  by (cases payload) (auto simp: js_or_def split: if_splits)

lemma extract_example:
  "extractUserFromJWT (JObject [(''email'', JString ''a@b.com''), (''sub'', JString ''u1'')]) =
     Inr (Some example_user)"
  by (simp add: get_def js_or_def example_user_def)

text \<open>
  C6, as amended. \<open>extractUserFromJWT\<close> returns a user exactly when the payload's
  \<open>email\<close> claim is truthy, which for a string claim is: present and non-empty. Then
  \<open>id\<close> is the \<open>sub\<close> claim when that is truthy and the \<open>email\<close> claim otherwise,
  \<open>email\<close> and \<open>name\<close> are the claims of these names (\<open>name\<close> absent when the claim
  is), and \<open>avatar_url\<close> is the \<open>picture\<close> claim when that is truthy, so present and
  non-empty, and the \<open>avatar_url\<close> claim otherwise (absent when that claim is). When
  \<open>email\<close> is absent, empty or otherwise falsy the result is \<open>null\<close>.
\<close>

theorem extractUserFromJWT_claims:
  "extractUserFromJWT (JObject ps) =
     (if truthy (get ps ''email'')
      then Inr (Some \<lparr>
        User.id' = (if truthy (get ps ''sub'') then get ps ''sub'' else get ps ''email''),
        email = get ps ''email'',
        name = get ps ''name'',
        avatar_url =
          (if truthy (get ps ''picture'') then get ps ''picture'' else get ps ''avatar_url'')\<rparr>)
      else Inr None)"
  by (simp add: js_or_def)

theorem extractUserFromJWT_claims_witness:
  "extractUserFromJWT
     (JObject [(''email'', JString ''a@b.com''), (''sub'', JString []),
               (''name'', JString ''Ann''), (''picture'', JString ''p.png''),
               (''avatar_url'', JString ''x'')]) =
   Inr (Some \<lparr>User.id' = JString ''a@b.com'', email = JString ''a@b.com'',
              name = JString ''Ann'', avatar_url = JString ''p.png''\<rparr>) \<and>
   extractUserFromJWT (JObject [(''sub'', JString ''u1''), (''email'', JString [])]) = Inr None"
  using extractUserFromJWT_claims [of "[(''email'', JString ''a@b.com''), (''sub'', JString []),
               (''name'', JString ''Ann''), (''picture'', JString ''p.png''),
               (''avatar_url'', JString ''x'')]"]
    extractUserFromJWT_claims [of "[(''sub'', JString ''u1''), (''email'', JString [])]"]
  by (simp add: get_def)

text \<open>
  The claim as the specification words it, \<open>picture\<close> whenever it is present, fails on
  a \<open>picture\<close> that is present and empty: \<open>avatar_url\<close> is then the \<open>avatar_url\<close>
  claim, not the picture. The payload is the one \<open>token_empty_picture\<close> decodes to.
\<close>

theorem extractUserFromJWT_empty_picture:
  "get [(''email'', JString ''a@b.com''), (''picture'', JString []), (''avatar_url'', JString ''x'')]
     ''picture'' = JString [] \<and>
   extractUserFromJWT
     (JObject [(''email'', JString ''a@b.com''), (''picture'', JString []),
               (''avatar_url'', JString ''x'')]) =
   Inr (Some \<lparr>User.id' = JString ''a@b.com'', email = JString ''a@b.com'',
              name = JUndefined, avatar_url = JString ''x''\<rparr>)"
  by (simp add: get_def js_or_def)

text \<open>
  What is not an object yields no user: \<open>null\<close> and \<open>undefined\<close> raise, every other
  value gives \<open>null\<close>.
\<close>

lemma extractUserFromJWT_not_object:
  "(\<And>ps. payload \<noteq> JObject ps) \<Longrightarrow>
     extractUserFromJWT payload =
       (if payload = JNull \<or> payload = JUndefined then Inl TypeError else Inr None)"
  by (cases payload) auto

section \<open>The session resolver\<close>

text \<open>The header block never raises: a payload that is read is truthy, so it is not \<open>null\<close>.\<close>

lemma fromHeader_total: "\<exists>r. fromHeader P t = Inr r"
proof -
  obtain v where v: "decodeJWT P t = Inr v"
    using decodeJWT_total by blast
  show ?thesis
  proof (cases "truthy v")
    case False
    with v show ?thesis by (simp add: fromHeader_def)
  next
    case True
    then obtain r where "extractUserFromJWT v = Inr r"
      using extract_truthy_total by blast
    with v True show ?thesis by (cases r) (simp_all add: fromHeader_def)
  qed
qed

text \<open>The header block returns a session exactly when decoding and extraction both succeed.\<close>

lemma fromHeader_Some:
  "fromHeader P t = Inr (Some s) \<longleftrightarrow>
     (\<exists>payload u. decodeJWT P t = Inr payload \<and> extractUserFromJWT payload = Inr (Some u)
        \<and> s = \<lparr>UserSession.user = u, access_token = Some t\<rparr>)"
  using extract_Some_truthy
  by (auto simp: fromHeader_def split: sum.splits option.splits if_splits)

lemma getUserFromHeaders_total: "\<exists>r. getUserFromHeaders P env headersList = Inr r"
proof (cases "headersList AUTH_HEADER")
  case None
  then show ?thesis by (simp add: getUserFromHeaders_def)
next
  case (Some t)
  obtain r where "fromHeader P t = Inr r"
    using fromHeader_total by blast
  with Some show ?thesis by (cases r) (simp_all add: getUserFromHeaders_def)
qed

lemma getUserFromHeaders_header:
  assumes "headersList AUTH_HEADER = Some t" and "t \<noteq> []"
    and "fromHeader P t = Inr (Some s)"
  shows "getUserFromHeaders P env headersList = Inr (Some s)"
  using assms by (simp add: getUserFromHeaders_def)

text \<open>A session is the mock session or comes out of the header block.\<close>

lemma getUserFromHeaders_Some:
  assumes "getUserFromHeaders P env headersList = Inr (Some s)"
  shows "(isMockAuthEnabled env \<and> s = \<lparr>UserSession.user = MOCK_USER, access_token = None\<rparr>) \<or>
         (\<exists>t. headersList AUTH_HEADER = Some t \<and> t \<noteq> [] \<and> fromHeader P t = Inr (Some s))"
  using assms
  by (auto simp: getUserFromHeaders_def split: option.splits sum.splits if_splits)

text \<open>There is no session exactly when the header gives none and mock-auth is off.\<close>

lemma getUserFromHeaders_None:
  "getUserFromHeaders P env headersList = Inr None \<longleftrightarrow>
     \<not> isMockAuthEnabled env \<and>
     (case headersList AUTH_HEADER of
        None \<Rightarrow> True
      | Some t \<Rightarrow> t = [] \<or> fromHeader P t = Inr None)"
  by (auto simp: getUserFromHeaders_def split: option.splits sum.splits if_splits)

lemma header_lookup: "map_of [(AUTH_HEADER, t)] AUTH_HEADER = Some t"
  by simp

lemma example_token_not_empty: "example_token \<noteq> []"
  by (simp add: example_token_def)

text \<open>
  The specification's first end-to-end scenario: the example header resolves to the user
  \<open>u1\<close>, \<open>a@b.com\<close> with the header as \<open>access_token\<close>, under every environment.
\<close>

lemma resolve_example:
  "getUserFromHeaders node env (map_of [(AUTH_HEADER, example_token)]) =
     Inr (Some \<lparr>UserSession.user = example_user, access_token = Some example_token\<rparr>)"
proof -
  have "fromHeader node example_token =
      Inr (Some \<lparr>UserSession.user = example_user, access_token = Some example_token\<rparr>)"
    using decode_example_token extract_example by (simp add: fromHeader_Some)
  with header_lookup example_token_not_empty show ?thesis
    by (rule getUserFromHeaders_header)
qed

text \<open>Without a header and without an environment there is no session.\<close>

lemma resolve_nothing: "getUserFromHeaders P (map_of []) (map_of []) = Inr None"
  by (simp add: getUserFromHeaders_def isMockAuthEnabled_def)

text \<open>
  The header with the nested \<open>email\<close> claim resolves: an array is truthy, so it becomes
  the \<open>email\<close> and the \<open>id\<close> of the user.
\<close>

lemma resolve_deep:
  "getUserFromHeaders (node\<lparr>JSON_stringify_depth := d\<rparr>) env
       (map_of [(AUTH_HEADER, token_deep_email (Suc k))]) =
     Inr (Some \<lparr>UserSession.user =
                  \<lparr>User.id' = nested (3 * k + 2), email = nested (3 * k + 2),
                   name = JUndefined, avatar_url = JUndefined\<rparr>,
                access_token = Some (token_deep_email (Suc k))\<rparr>)"
proof -
  have "extractUserFromJWT (JObject [(''email'', nested (3 * k + 2))]) =
          Inr (Some \<lparr>User.id' = nested (3 * k + 2), email = nested (3 * k + 2),
                     name = JUndefined, avatar_url = JUndefined\<rparr>)"
    by (simp add: get_def js_or_def truthy_nested)
  with decodeJWT_deep
  have "fromHeader (node\<lparr>JSON_stringify_depth := d\<rparr>) (token_deep_email (Suc k)) =
          Inr (Some \<lparr>UserSession.user =
                  \<lparr>User.id' = nested (3 * k + 2), email = nested (3 * k + 2),
                   name = JUndefined, avatar_url = JUndefined\<rparr>,
                access_token = Some (token_deep_email (Suc k))\<rparr>)"
    by (simp add: fromHeader_Some)
  moreover have "token_deep_email (Suc k) \<noteq> []"
    by (simp add: token_deep_email_def)
  ultimately show ?thesis
    using header_lookup by (intro getUserFromHeaders_header)
qed

lemma node_depth: "node\<lparr>JSON_stringify_depth := 1000\<rparr> = node"
  by (simp add: node_def)

lemma resolve_deep_node:
  "getUserFromHeaders node (map_of []) (map_of [(AUTH_HEADER, token_deep_email 1667)]) =
     Inr (Some \<lparr>UserSession.user =
                  \<lparr>User.id' = nested 5000, email = nested 5000,
                   name = JUndefined, avatar_url = JUndefined\<rparr>,
                access_token = Some (token_deep_email 1667)\<rparr>)"
  using resolve_deep [of 1000 "map_of []" 1666] by (simp add: node_depth)

text \<open>The header with the claim \<open>"email":1e999\<close> resolves to a user whose email is \<open>Infinity\<close>.\<close>

lemma resolve_infinite_email:
  "getUserFromHeaders node (map_of []) (map_of [(AUTH_HEADER, token_infinite_email)]) =
     Inr (Some \<lparr>UserSession.user =
                  \<lparr>User.id' = JNumber PosInfinity, email = JNumber PosInfinity,
                   name = JUndefined, avatar_url = JUndefined\<rparr>,
                access_token = Some token_infinite_email\<rparr>)"
  by code_simp

text \<open>
  C1. When the header \<open>x-goog-iap-jwt-assertion\<close> is present and non-empty, decodes, and
  the extractor yields a user from the payload, the resolver returns the session of that
  user with the raw header as \<open>access_token\<close>, for every environment: \<open>MOCK_AUTH\<close> and
  \<open>NODE_ENV\<close> are not consulted.
\<close>

theorem header_identity_wins:
  assumes "headersList AUTH_HEADER = Some t" and "t \<noteq> []"
    and "decodeJWT P t = Inr payload"
    and "extractUserFromJWT payload = Inr (Some u)"
  shows "getUserFromHeaders P env headersList =
           Inr (Some \<lparr>UserSession.user = u, access_token = Some t\<rparr>)"
proof -
  have "fromHeader P t = Inr (Some \<lparr>UserSession.user = u, access_token = Some t\<rparr>)"
    using assms(3,4) by (simp add: fromHeader_Some)
  with assms(1,2) show ?thesis by (simp add: getUserFromHeaders_def)
qed

theorem header_identity_wins_witness:
  "decodeJWT node example_token =
     Inr (JObject [(''email'', JString ''a@b.com''), (''sub'', JString ''u1'')]) \<and>
   extractUserFromJWT (JObject [(''email'', JString ''a@b.com''), (''sub'', JString ''u1'')]) =
     Inr (Some example_user) \<and>
   isMockAuthEnabled (map_of [(''MOCK_AUTH'', ''true'')]) \<and>
   getUserFromHeaders node (map_of [(''MOCK_AUTH'', ''true'')])
       (map_of [(AUTH_HEADER, example_token)]) =
     Inr (Some \<lparr>UserSession.user = example_user, access_token = Some example_token\<rparr>)"
proof -
  have m: "isMockAuthEnabled (map_of [(''MOCK_AUTH'', ''true'')])"
    by (simp add: isMockAuthEnabled_def)
  from header_identity_wins [where headersList = "map_of [(AUTH_HEADER, example_token)]",
      OF header_lookup example_token_not_empty decode_example_token extract_example]
  show ?thesis
    using decode_example_token extract_example m by simp
qed

text \<open>
  C2. When the header is present and non-empty but does not decode, or decodes to a
  payload the extractor rejects, and mock-auth is enabled, the resolver returns the mock
  session: the failure falls through to the fallback.
\<close>

theorem header_failure_falls_back:
  assumes "headersList AUTH_HEADER = Some t" and "t \<noteq> []"
    and "isMockAuthEnabled env"
    and "decodeJWT P t = Inr JNull \<or>
         (\<exists>payload. decodeJWT P t = Inr payload \<and> extractUserFromJWT payload = Inr None)"
  shows "getUserFromHeaders P env headersList =
           Inr (Some \<lparr>UserSession.user = MOCK_USER, access_token = None\<rparr>)"
proof -
  have "fromHeader P t = Inr None"
    using assms(4) by (auto simp: fromHeader_def)
  with assms(1,2,3) show ?thesis by (simp add: getUserFromHeaders_def)
qed

text \<open>A header of one segment, and a token whose payload has no \<open>email\<close>.\<close>

theorem header_failure_falls_back_witness:
  "decodeJWT node ''garbage'' = Inr JNull \<and>
   getUserFromHeaders node (map_of [(''MOCK_AUTH'', ''true'')]) (map_of [(AUTH_HEADER, ''garbage'')]) =
     Inr (Some \<lparr>UserSession.user = MOCK_USER, access_token = None\<rparr>) \<and>
   decodeJWT node token_without_email = Inr (JObject [(''sub'', JString ''u1'')]) \<and>
   extractUserFromJWT (JObject [(''sub'', JString ''u1'')]) = Inr None \<and>
   getUserFromHeaders node (map_of [(''NODE_ENV'', ''development'')])
       (map_of [(AUTH_HEADER, token_without_email)]) =
     Inr (Some \<lparr>UserSession.user = MOCK_USER, access_token = None\<rparr>)"
proof -
  have m1: "isMockAuthEnabled (map_of [(''MOCK_AUTH'', ''true'')])"
    and m2: "isMockAuthEnabled (map_of [(''NODE_ENV'', ''development'')])"
    by (simp_all add: isMockAuthEnabled_def)
  have x: "extractUserFromJWT (JObject [(''sub'', JString ''u1'')]) = Inr None"
    by (simp add: get_def)
  have a: "getUserFromHeaders node (map_of [(''MOCK_AUTH'', ''true'')])
       (map_of [(AUTH_HEADER, ''garbage'')]) =
     Inr (Some \<lparr>UserSession.user = MOCK_USER, access_token = None\<rparr>)"
    using decode_one_segment m1
    by (intro header_failure_falls_back [where t = "''garbage''"]) simp_all
  have b: "getUserFromHeaders node (map_of [(''NODE_ENV'', ''development'')])
       (map_of [(AUTH_HEADER, token_without_email)]) =
     Inr (Some \<lparr>UserSession.user = MOCK_USER, access_token = None\<rparr>)"
    using decode_token_without_email x m2
    by (intro header_failure_falls_back [where t = token_without_email])
      (simp_all add: token_without_email_def)
  show ?thesis
    using a b x decode_one_segment decode_token_without_email by simp
qed

text \<open>
  C3. With no header, or an empty one, \<open>MOCK_AUTH\<close> other than \<open>true\<close> and
  \<open>NODE_ENV\<close> other than \<open>development\<close>, the resolver returns no session. Mock-auth
  is enabled exactly when \<open>MOCK_AUTH\<close> is \<open>true\<close> or \<open>NODE_ENV\<close> is \<open>development\<close>.
\<close>

theorem no_header_no_mock:
  "((headersList AUTH_HEADER = None \<or> headersList AUTH_HEADER = Some [])
      \<and> env ''MOCK_AUTH'' \<noteq> Some ''true'' \<and> env ''NODE_ENV'' \<noteq> Some ''development''
     \<longrightarrow> getUserFromHeaders P env headersList = Inr None) \<and>
   (isMockAuthEnabled env \<longleftrightarrow>
      env ''MOCK_AUTH'' = Some ''true'' \<or> env ''NODE_ENV'' = Some ''development'')"
  by (auto simp: getUserFromHeaders_def isMockAuthEnabled_def)

theorem no_header_no_mock_witness:
  "map_of [(''MOCK_AUTH'', ''false''), (''NODE_ENV'', ''production'')] ''MOCK_AUTH'' \<noteq> Some ''true'' \<and>
   map_of [(''MOCK_AUTH'', ''false''), (''NODE_ENV'', ''production'')] ''NODE_ENV''
     \<noteq> Some ''development'' \<and>
   getUserFromHeaders node (map_of [(''MOCK_AUTH'', ''false''), (''NODE_ENV'', ''production'')])
     (map_of []) = Inr None \<and>
   getUserFromHeaders node (map_of [(''MOCK_AUTH'', ''false''), (''NODE_ENV'', ''production'')])
     (map_of [(AUTH_HEADER, [])]) = Inr None \<and>
   \<not> isMockAuthEnabled (map_of [(''MOCK_AUTH'', ''false''), (''NODE_ENV'', ''production'')])"
  using no_header_no_mock [of "map_of []"
      "map_of [(''MOCK_AUTH'', ''false''), (''NODE_ENV'', ''production'')]" node]
    no_header_no_mock [of "map_of [(AUTH_HEADER, [])]"
      "map_of [(''MOCK_AUTH'', ''false''), (''NODE_ENV'', ''production'')]" node]
  by simp

text \<open>
  C4. With no header, or an empty one, and mock-auth enabled, the resolver returns the
  session of the fixed mock user \<open>dev-user-001\<close>, \<open>developer@localhost.dev\<close>,
  \<open>Local Developer\<close>, with no \<open>access_token\<close>.
\<close>

theorem no_header_mock:
  assumes "headersList AUTH_HEADER = None \<or> headersList AUTH_HEADER = Some []"
    and "isMockAuthEnabled env"
  shows "getUserFromHeaders P env headersList =
           Inr (Some \<lparr>UserSession.user =
                        \<lparr>User.id' = JString ''dev-user-001'',
                         email = JString ''developer@localhost.dev'',
                         name = JString ''Local Developer'',
                         avatar_url = JUndefined\<rparr>,
                      access_token = None\<rparr>)"
  using assms by (auto simp: getUserFromHeaders_def MOCK_USER_def)

text \<open>The specification's second end-to-end scenario: no header, \<open>MOCK_AUTH=true\<close>.\<close>

theorem no_header_mock_witness:
  "isMockAuthEnabled (map_of [(''MOCK_AUTH'', ''true'')]) \<and>
   getUserFromHeaders node (map_of [(''MOCK_AUTH'', ''true'')]) (map_of []) =
     Inr (Some \<lparr>UserSession.user =
                  \<lparr>User.id' = JString ''dev-user-001'',
                   email = JString ''developer@localhost.dev'',
                   name = JString ''Local Developer'',
                   avatar_url = JUndefined\<rparr>,
                access_token = None\<rparr>)"
proof -
  have m: "isMockAuthEnabled (map_of [(''MOCK_AUTH'', ''true'')])"
    by (simp add: isMockAuthEnabled_def)
  have h: "map_of [] AUTH_HEADER = None \<or> map_of [] AUTH_HEADER = Some []"
    by simp
  from no_header_mock [where headersList = "map_of []", OF h m, of node] m
  show ?thesis by simp
qed

text \<open>
  C7, as amended. The resolver never raises: it returns no session, or a session that
  holds a user whose \<open>id\<close> and \<open>email\<close> are truthy, that is present, not \<open>null\<close>
  and not empty. They are non-empty strings when the session is the mock session, and
  when the payload's \<open>sub\<close> and \<open>email\<close> claims are strings where present, as
  \<open>JWTPayload\<close> declares them.
\<close>

theorem session_user_populated:
  "(\<exists>r. getUserFromHeaders P env headersList = Inr r) \<and>
   (\<forall>s. getUserFromHeaders P env headersList = Inr (Some s) \<longrightarrow>
      truthy (User.id' (UserSession.user s)) \<and> truthy (User.email (UserSession.user s)) \<and>
      (UserSession.user s = MOCK_USER \<or>
       (\<exists>t ps. headersList AUTH_HEADER = Some t \<and> decodeJWT P t = Inr (JObject ps)
          \<and> string_or_absent (get ps ''sub'') \<and> string_or_absent (get ps ''email''))
       \<longrightarrow> nonempty_string (User.id' (UserSession.user s))
         \<and> nonempty_string (User.email (UserSession.user s))))"
proof (intro conjI allI impI)
  show "\<exists>r. getUserFromHeaders P env headersList = Inr r"
    by (rule getUserFromHeaders_total)
next
  fix s assume s: "getUserFromHeaders P env headersList = Inr (Some s)"
  from getUserFromHeaders_Some [OF s]
  show "truthy (User.id' (UserSession.user s))" and "truthy (User.email (UserSession.user s))"
    using extract_user_truthy by (auto simp: MOCK_USER_def fromHeader_Some)
next
  fix s
  assume s: "getUserFromHeaders P env headersList = Inr (Some s)"
    and typed: "UserSession.user s = MOCK_USER \<or>
       (\<exists>t ps. headersList AUTH_HEADER = Some t \<and> decodeJWT P t = Inr (JObject ps)
          \<and> string_or_absent (get ps ''sub'') \<and> string_or_absent (get ps ''email''))"
  have str: "nonempty_string v" if "truthy v" "string_or_absent v" for v
    using that by (cases v) simp_all
  have "nonempty_string (User.id' (UserSession.user s))
      \<and> nonempty_string (User.email (UserSession.user s))"
    using getUserFromHeaders_Some [OF s]
  proof
    assume "isMockAuthEnabled env \<and> s = \<lparr>UserSession.user = MOCK_USER, access_token = None\<rparr>"
    then show ?thesis by (simp add: MOCK_USER_def)
  next
    assume "\<exists>t. headersList AUTH_HEADER = Some t \<and> t \<noteq> [] \<and> fromHeader P t = Inr (Some s)"
    then obtain t payload u where t: "headersList AUTH_HEADER = Some t"
      and d: "decodeJWT P t = Inr payload"
      and x: "extractUserFromJWT payload = Inr (Some u)"
      and su: "UserSession.user s = u"
      by (auto simp: fromHeader_Some)
    from typed show ?thesis
    proof
      assume "UserSession.user s = MOCK_USER"
      then show ?thesis by (simp add: MOCK_USER_def)
    next
      assume "\<exists>t ps. headersList AUTH_HEADER = Some t \<and> decodeJWT P t = Inr (JObject ps)
          \<and> string_or_absent (get ps ''sub'') \<and> string_or_absent (get ps ''email'')"
      with t d obtain ps where p: "payload = JObject ps"
        and ty: "string_or_absent (get ps ''sub'')" "string_or_absent (get ps ''email'')"
        by auto
      from x p have e: "truthy (get ps ''email'')" and u: "User.email u = get ps ''email''"
        "User.id' u = js_or (get ps ''sub'') (get ps ''email'')"
        by (auto split: if_splits)
      from e ty(2) have "nonempty_string (get ps ''email'')" by (rule str)
      moreover have "nonempty_string (js_or (get ps ''sub'') (get ps ''email''))"
        using str e ty by (simp add: js_or_def)
      ultimately show ?thesis using su u by simp
    qed
  qed
  then show "nonempty_string (User.id' (UserSession.user s))"
    and "nonempty_string (User.email (UserSession.user s))" by simp_all
qed

theorem session_user_populated_witness:
  "getUserFromHeaders node (map_of []) (map_of [(AUTH_HEADER, example_token)]) =
     Inr (Some \<lparr>UserSession.user = example_user, access_token = Some example_token\<rparr>) \<and>
   decodeJWT node example_token =
     Inr (JObject [(''email'', JString ''a@b.com''), (''sub'', JString ''u1'')]) \<and>
   string_or_absent (get [(''email'', JString ''a@b.com''), (''sub'', JString ''u1'')] ''sub'') \<and>
   string_or_absent (get [(''email'', JString ''a@b.com''), (''sub'', JString ''u1'')] ''email'') \<and>
   truthy (User.id' example_user) \<and> truthy (User.email example_user) \<and>
   nonempty_string (User.id' example_user) \<and> nonempty_string (User.email example_user)"
proof -
  let ?h = "map_of [(AUTH_HEADER, example_token)]"
  let ?s = "\<lparr>UserSession.user = example_user, access_token = Some example_token\<rparr>"
  let ?ps = "[(''email'', JString ''a@b.com''), (''sub'', JString ''u1'')]"
  have r: "getUserFromHeaders node (map_of []) ?h = Inr (Some ?s)"
    by (rule resolve_example)
  have ty: "string_or_absent (get ?ps ''sub'')" "string_or_absent (get ?ps ''email'')"
    by (simp_all add: get_def)
  have "?h AUTH_HEADER = Some example_token \<and> decodeJWT node example_token = Inr (JObject ?ps)
      \<and> string_or_absent (get ?ps ''sub'') \<and> string_or_absent (get ?ps ''email'')"
    using decode_example_token ty by simp
  then have ex: "\<exists>t ps. ?h AUTH_HEADER = Some t \<and> decodeJWT node t = Inr (JObject ps)
      \<and> string_or_absent (get ps ''sub'') \<and> string_or_absent (get ps ''email'')"
    by blast
  from session_user_populated [of node "map_of []" ?h] r ex
  have "truthy (User.id' example_user) \<and> truthy (User.email example_user) \<and>
     nonempty_string (User.id' example_user) \<and> nonempty_string (User.email example_user)"
    by auto
  with r ty decode_example_token show ?thesis by simp
qed

text \<open>
  The claim as the specification words it, \<open>id\<close> and \<open>email\<close> always non-empty
  strings, fails on a header whose payload is \<open>{"email":42}\<close>: the number is truthy,
  nothing checks that it is a string, and the session carries it as \<open>id\<close> and as
  \<open>email\<close>.
\<close>

theorem session_email_not_a_string:
  "getUserFromHeaders node (map_of []) (map_of [(AUTH_HEADER, token_numeric_email)]) =
     Inr (Some \<lparr>UserSession.user =
                  \<lparr>User.id' = JNumber (Finite 42), email = JNumber (Finite 42),
                   name = JUndefined, avatar_url = JUndefined\<rparr>,
                access_token = Some token_numeric_email\<rparr>) \<and>
   \<not> nonempty_string (JNumber (Finite 42))"
proof -
  have x: "extractUserFromJWT (JObject [(''email'', JNumber (Finite 42))]) =
      Inr (Some \<lparr>User.id' = JNumber (Finite 42), email = JNumber (Finite 42),
                 name = JUndefined, avatar_url = JUndefined\<rparr>)"
    by (simp add: get_def js_or_def)
  have "fromHeader node token_numeric_email =
      Inr (Some \<lparr>UserSession.user =
                  \<lparr>User.id' = JNumber (Finite 42), email = JNumber (Finite 42),
                   name = JUndefined, avatar_url = JUndefined\<rparr>,
                access_token = Some token_numeric_email\<rparr>)"
    using decode_token_numeric_email x by (simp add: fromHeader_Some)
  moreover have "token_numeric_email \<noteq> []"
    by (simp add: token_numeric_email_def)
  ultimately have "getUserFromHeaders node (map_of [])
      (map_of [(AUTH_HEADER, token_numeric_email)]) =
      Inr (Some \<lparr>UserSession.user =
                  \<lparr>User.id' = JNumber (Finite 42), email = JNumber (Finite 42),
                   name = JUndefined, avatar_url = JUndefined\<rparr>,
                access_token = Some token_numeric_email\<rparr>)"
    using header_lookup by (intro getUserFromHeaders_header)
  then show ?thesis by simp
qed

section \<open>The session endpoint\<close>

text \<open>A value that is a string or absent has no nesting.\<close>

lemma depth_string_or_absent: "string_or_absent v \<Longrightarrow> depth v = 0"
  by (cases v) simp_all

text \<open>
  On the header with the nested \<open>email\<close> claim the serialisation of the response raises
  as soon as the claim nests deeper than the stack holds, and for every stack there is such
  a header.
\<close>

lemma GET_deep:
  assumes "d < 3 * k + 5"
  shows "GET (node\<lparr>JSON_stringify_depth := d\<rparr>) env
           (map_of [(AUTH_HEADER, token_deep_email (Suc k))]) = Inl RangeError"
  using assms unfolding GET_def resolve_deep
  by (simp add: NextResponse_json_def session_body_def User_object_def depth_nested)

lemma GET_deeper_than_the_stack:
  "GET (node\<lparr>JSON_stringify_depth := d\<rparr>) env
     (map_of [(AUTH_HEADER, token_deep_email (Suc d))]) = Inl RangeError"
  by (rule GET_deep) simp

lemma GET_deep_node:
  "GET node (map_of []) (map_of [(AUTH_HEADER, token_deep_email 1667)]) = Inl RangeError"
  using GET_deep [of 1000 1666 "map_of []"] by (simp add: node_depth)

lemma GET_infinite_email:
  "GET node (map_of []) (map_of [(AUTH_HEADER, token_infinite_email)]) =
     Inr \<lparr>status = 200,
          body = JObject [(''user'', JObject [(''id'', JNull), (''email'', JNull)]),
                          (''access_token'', JString token_infinite_email)]\<rparr>"
  by code_simp

text \<open>
  C8, as amended. Every response of \<open>GET\<close> has status 200, and \<open>GET\<close> gives a response
  whenever \<open>JSON.stringify\<close> can write the body; it has no \<open>try\<close>, and the only
  exception that leaves it is the \<open>RangeError\<close> of a body that nests deeper than the
  stack holds. When the resolver yields no session the body is \<open>{ user: null }\<close>, one
  level deep. When it yields a session the body is \<open>{ user, access_token }\<close> as
  \<open>JSON.stringify\<close> writes it: a field that is \<open>undefined\<close> is left out and a number
  that is not finite is written as \<open>null\<close>. A session whose user has only strings and
  absent fields is two levels deep, and is answered with status 200 on every stack that
  holds two levels.
\<close>

theorem GET_responds_200:
  "(\<forall>r. GET P env headersList = Inr r \<longrightarrow> status r = 200) \<and>
   (\<forall>e. GET P env headersList = Inl e \<longrightarrow> e = RangeError) \<and>
   (getUserFromHeaders P env headersList = Inr None \<longrightarrow>
      GET P env headersList =
        (if 1 \<le> JSON_stringify_depth P
         then Inr \<lparr>status = 200, body = JObject [(''user'', JNull)]\<rparr>
         else Inl RangeError)) \<and>
   (\<forall>s. getUserFromHeaders P env headersList = Inr (Some s) \<longrightarrow>
      GET P env headersList =
        (if depth (session_body s) \<le> JSON_stringify_depth P
         then Inr \<lparr>status = 200, body = written (session_body s)\<rparr>
         else Inl RangeError)) \<and>
   (\<forall>s. getUserFromHeaders P env headersList = Inr (Some s) \<and>
        string_or_absent (User.id' (UserSession.user s)) \<and>
        string_or_absent (User.email (UserSession.user s)) \<and>
        string_or_absent (User.name (UserSession.user s)) \<and>
        string_or_absent (User.avatar_url (UserSession.user s)) \<and>
        2 \<le> JSON_stringify_depth P \<longrightarrow>
      GET P env headersList = Inr \<lparr>status = 200, body = written (session_body s)\<rparr>)"
proof -
  obtain r where r: "getUserFromHeaders P env headersList = Inr r"
    using getUserFromHeaders_total by blast
  show ?thesis
  proof (cases r)
    case None
    with r show ?thesis
      by (simp add: GET_def NextResponse_json_def)
  next
    case (Some s)
    have "depth (session_body s) = 2"
      if "string_or_absent (User.id' (UserSession.user s))"
        "string_or_absent (User.email (UserSession.user s))"
        "string_or_absent (User.name (UserSession.user s))"
        "string_or_absent (User.avatar_url (UserSession.user s))"
      using that
      by (simp add: session_body_def User_object_def depth_string_or_absent split: option.split)
    with r Some show ?thesis
      by (auto simp: GET_def NextResponse_json_def)
  qed
qed

text \<open>
  The specification's third end-to-end scenario (no header, mock-auth disabled), the first
  one seen through the endpoint, where the absent \<open>name\<close> and \<open>avatar_url\<close> are left
  out of the body, and the header of 13354 characters whose \<open>email\<close> claim is 5001 arrays
  deep.
\<close>

theorem GET_responds_200_witness:
  "getUserFromHeaders node (map_of []) (map_of []) = Inr None \<and>
   GET node (map_of []) (map_of []) =
     Inr \<lparr>status = 200, body = JObject [(''user'', JNull)]\<rparr> \<and>
   getUserFromHeaders node (map_of []) (map_of [(AUTH_HEADER, example_token)]) =
     Inr (Some \<lparr>UserSession.user = example_user, access_token = Some example_token\<rparr>) \<and>
   GET node (map_of []) (map_of [(AUTH_HEADER, example_token)]) =
     Inr \<lparr>status = 200,
          body = JObject [(''user'', JObject [(''id'', JString ''u1''),
                                              (''email'', JString ''a@b.com'')]),
                          (''access_token'', JString example_token)]\<rparr> \<and>
   JSON_stringify_depth node <
     depth (session_body
              \<lparr>UserSession.user =
                 \<lparr>User.id' = nested 5000, email = nested 5000, name = JUndefined,
                  avatar_url = JUndefined\<rparr>,
               access_token = Some (token_deep_email 1667)\<rparr>) \<and>
   GET node (map_of []) (map_of [(AUTH_HEADER, token_deep_email 1667)]) = Inl RangeError"
proof -
  let ?h = "map_of [(AUTH_HEADER, example_token)]"
  let ?d = "map_of [(AUTH_HEADER, token_deep_email 1667)]"
  let ?s = "\<lparr>UserSession.user = example_user, access_token = Some example_token\<rparr>"
  let ?u = "\<lparr>User.id' = nested 5000, email = nested 5000, name = JUndefined,
             avatar_url = JUndefined\<rparr>"
  let ?t = "\<lparr>UserSession.user = ?u, access_token = Some (token_deep_email 1667)\<rparr>"
  have r0: "getUserFromHeaders node (map_of []) (map_of []) = Inr None"
    by (rule resolve_nothing)
  have r1: "getUserFromHeaders node (map_of []) ?h = Inr (Some ?s)"
    by (rule resolve_example)
  have r2: "getUserFromHeaders node (map_of []) ?d = Inr (Some ?t)"
    by (rule resolve_deep_node)
  have d0: "JSON_stringify_depth node = 1000"
    by (simp add: node_def)
  have w1: "written (session_body ?s) =
      JObject [(''user'', JObject [(''id'', JString ''u1''), (''email'', JString ''a@b.com'')]),
               (''access_token'', JString example_token)]"
    by (simp add: session_body_def User_object_def example_user_def)
  have d1: "depth (session_body ?s) = 2"
    by (simp add: session_body_def User_object_def example_user_def)
  have d2: "depth (session_body ?t) = 5003"
    by (simp add: session_body_def User_object_def depth_nested)
  from GET_responds_200 [of node "map_of []" "map_of []"] r0 d0
  have a: "GET node (map_of []) (map_of []) =
      Inr \<lparr>status = 200, body = JObject [(''user'', JNull)]\<rparr>"
    by simp
  from GET_responds_200 [of node "map_of []" ?h] r1 d0 d1 w1
  have b: "GET node (map_of []) ?h =
      Inr \<lparr>status = 200,
           body = JObject [(''user'', JObject [(''id'', JString ''u1''),
                                               (''email'', JString ''a@b.com'')]),
                           (''access_token'', JString example_token)]\<rparr>"
    by simp
  from GET_responds_200 [of node "map_of []" ?d] r2 d0 d2
  have c: "GET node (map_of []) ?d = Inl RangeError"
    by simp
  from d0 d2 have d: "JSON_stringify_depth node < depth (session_body ?t)"
    by simp
  from r0 a r1 b d c show ?thesis
    by (intro conjI)
qed

text \<open>
  The claim as the specification words it, status 200 always and the fields of the user
  as the body, fails twice. The header whose \<open>email\<close> claim is 5001 arrays deep resolves to a session, and
  \<open>GET\<close> raises a \<open>RangeError\<close> where a response with status 200 was to come. The
  header whose claim is \<open>"email":1e999\<close> resolves to a user whose \<open>id\<close> and \<open>email\<close>
  are \<open>Infinity\<close>, and the body of the response gives both as \<open>null\<close>. The bound of
  the reference stack plays no part in the first: for a stack of any depth,
  \<open>GET_deeper_than_the_stack\<close> has a header that nests deeper.
\<close>

theorem GET_not_always_200:
  "getUserFromHeaders node (map_of []) (map_of [(AUTH_HEADER, token_deep_email 1667)]) =
     Inr (Some \<lparr>UserSession.user =
                  \<lparr>User.id' = nested 5000, email = nested 5000,
                   name = JUndefined, avatar_url = JUndefined\<rparr>,
                access_token = Some (token_deep_email 1667)\<rparr>) \<and>
   GET node (map_of []) (map_of [(AUTH_HEADER, token_deep_email 1667)]) = Inl RangeError \<and>
   getUserFromHeaders node (map_of []) (map_of [(AUTH_HEADER, token_infinite_email)]) =
     Inr (Some \<lparr>UserSession.user =
                  \<lparr>User.id' = JNumber PosInfinity, email = JNumber PosInfinity,
                   name = JUndefined, avatar_url = JUndefined\<rparr>,
                access_token = Some token_infinite_email\<rparr>) \<and>
   GET node (map_of []) (map_of [(AUTH_HEADER, token_infinite_email)]) =
     Inr \<lparr>status = 200,
          body = JObject [(''user'', JObject [(''id'', JNull), (''email'', JNull)]),
                          (''access_token'', JString token_infinite_email)]\<rparr>"
  using resolve_deep_node GET_deep_node resolve_infinite_email GET_infinite_email
  by (intro conjI)

section \<open>The compatibility adapter\<close>

text \<open>
  C9, as amended. For every session, \<open>useAuth\<close> returns a legacy session whose
  \<open>user.user_metadata.avatar_url\<close> is the user's \<open>avatar_url\<close>, whose \<open>id\<close> and
  \<open>email\<close> are the user's and whose \<open>access_token\<close> is the session's, and a team with
  the user's \<open>id\<close> and \<open>email\<close>, the tier \<open>default\<close>, and as \<open>name\<close> the user's
  name when that is truthy (present and non-empty), the user's email otherwise.
\<close>

theorem useAuth_projection:
  assumes "UserContextValue.session ctx = Some s"
  shows "\<exists>c t. Auth.session (useAuth ctx) = Some c \<and> userTeam (useAuth ctx) = Some t \<and>
     user_metadata.avatar_url (user_metadata (CompatSession.user c)) =
       User.avatar_url (UserSession.user s) \<and>
     CompatSession.access_token c = UserSession.access_token s \<and>
     CompatUser.id' (CompatSession.user c) = User.id' (UserSession.user s) \<and>
     CompatUser.email (CompatSession.user c) = User.email (UserSession.user s) \<and>
     UserTeam.id' t = User.id' (UserSession.user s) \<and>
     UserTeam.email t = User.email (UserSession.user s) \<and>
     UserTeam.name t =
       (if truthy (User.name (UserSession.user s)) then User.name (UserSession.user s)
        else User.email (UserSession.user s)) \<and>
     tier t = ''default''"
  using assms by (simp add: useAuth_def Let_def js_or_def)

theorem useAuth_projection_witness:
  "Auth.session
     (useAuth \<lparr>UserContextValue.session =
        Some \<lparr>UserSession.user =
                \<lparr>User.id' = JString ''u1'', email = JString ''a@b.com'',
                 name = JString ''Ann'', avatar_url = JString ''X''\<rparr>,
              access_token = Some example_token\<rparr>,
        isLoading = False\<rparr>) =
     Some \<lparr>CompatSession.user =
             \<lparr>CompatUser.id' = JString ''u1'', email = JString ''a@b.com'',
              user_metadata = \<lparr>user_metadata.avatar_url = JString ''X''\<rparr>\<rparr>,
           access_token = Some example_token\<rparr> \<and>
   userTeam
     (useAuth \<lparr>UserContextValue.session =
        Some \<lparr>UserSession.user =
                \<lparr>User.id' = JString ''u1'', email = JString ''a@b.com'',
                 name = JString ''Ann'', avatar_url = JString ''X''\<rparr>,
              access_token = Some example_token\<rparr>,
        isLoading = False\<rparr>) =
     Some \<lparr>UserTeam.id' = JString ''u1'', email = JString ''a@b.com'',
           name = JString ''Ann'', tier = ''default''\<rparr>"
proof -
  let ?s = "\<lparr>UserSession.user =
                \<lparr>User.id' = JString ''u1'', email = JString ''a@b.com'',
                 name = JString ''Ann'', avatar_url = JString ''X''\<rparr>,
              access_token = Some example_token\<rparr>"
  let ?ctx = "\<lparr>UserContextValue.session = Some ?s, isLoading = False\<rparr>"
  have "UserContextValue.session ?ctx = Some ?s" by simp
  from useAuth_projection [OF this]
  obtain c t where c: "Auth.session (useAuth ?ctx) = Some c"
    and t: "userTeam (useAuth ?ctx) = Some t"
    and f: "user_metadata.avatar_url (user_metadata (CompatSession.user c)) = JString ''X''"
      "CompatSession.access_token c = Some example_token"
      "CompatUser.id' (CompatSession.user c) = JString ''u1''"
      "CompatUser.email (CompatSession.user c) = JString ''a@b.com''"
      "UserTeam.id' t = JString ''u1''" "UserTeam.email t = JString ''a@b.com''"
      "UserTeam.name t = JString ''Ann''" "tier t = ''default''"
    by auto
  have "c = \<lparr>CompatSession.user =
             \<lparr>CompatUser.id' = JString ''u1'', email = JString ''a@b.com'',
              user_metadata = \<lparr>user_metadata.avatar_url = JString ''X''\<rparr>\<rparr>,
           access_token = Some example_token\<rparr>"
    using f(1-4)
    by (cases c, cases "CompatSession.user c", cases "user_metadata (CompatSession.user c)") auto
  moreover have "t = \<lparr>UserTeam.id' = JString ''u1'', email = JString ''a@b.com'',
           name = JString ''Ann'', tier = ''default''\<rparr>"
    using f(5-8) by (cases t) simp
  ultimately show ?thesis using c t by simp
qed

text \<open>
  The claim as the specification words it, the user's name whenever it is present, fails
  on a name that is present and empty: the team's name is then the email.
\<close>

theorem useAuth_empty_name:
  "useAuth \<lparr>UserContextValue.session =
       Some \<lparr>UserSession.user =
               \<lparr>User.id' = JString ''u1'', email = JString ''a@b.com'',
                name = JString [], avatar_url = JUndefined\<rparr>,
             access_token = None\<rparr>,
     isLoading = False\<rparr> =
   \<lparr>Auth.session =
       Some \<lparr>CompatSession.user =
               \<lparr>CompatUser.id' = JString ''u1'', email = JString ''a@b.com'',
                user_metadata = \<lparr>user_metadata.avatar_url = JUndefined\<rparr>\<rparr>,
             access_token = None\<rparr>,
     userTeam =
       Some \<lparr>UserTeam.id' = JString ''u1'', email = JString ''a@b.com'',
             name = JString ''a@b.com'', tier = ''default''\<rparr>,
     isLoading = False\<rparr>"
  by (simp add: useAuth_def js_or_def)

text \<open>
  A user with an empty name is one the resolver hands out: the header
  \<open>token_empty_name\<close> resolves to it.
\<close>

lemma resolve_empty_name:
  "getUserFromHeaders node env (map_of [(AUTH_HEADER, token_empty_name)]) =
     Inr (Some \<lparr>UserSession.user =
                  \<lparr>User.id' = JString ''a@b.com'', email = JString ''a@b.com'',
                   name = JString [], avatar_url = JUndefined\<rparr>,
                access_token = Some token_empty_name\<rparr>)"
proof -
  have "extractUserFromJWT (JObject [(''email'', JString ''a@b.com''), (''name'', JString [])]) =
      Inr (Some \<lparr>User.id' = JString ''a@b.com'', email = JString ''a@b.com'',
                 name = JString [], avatar_url = JUndefined\<rparr>)"
    by (simp add: get_def js_or_def)
  with decode_token_empty_name have "fromHeader node token_empty_name =
      Inr (Some \<lparr>UserSession.user =
                  \<lparr>User.id' = JString ''a@b.com'', email = JString ''a@b.com'',
                   name = JString [], avatar_url = JUndefined\<rparr>,
                access_token = Some token_empty_name\<rparr>)"
    by (simp add: fromHeader_Some)
  moreover have "token_empty_name \<noteq> []"
    by (simp add: token_empty_name_def)
  ultimately show ?thesis
    using header_lookup by (intro getUserFromHeaders_header)
qed

text \<open>Without a session there is neither a legacy session nor a team.\<close>

lemma useAuth_no_session:
  "useAuth \<lparr>UserContextValue.session = None, isLoading = l\<rparr> =
     \<lparr>Auth.session = None, userTeam = None, isLoading = l\<rparr>"
  by (simp add: useAuth_def)

end
